theory Spec2Isabelle
  imports Complex_Main "HOL-Library.Char_ord" "HOL-Library.List_Lexorder"
begin

section \<open>Errors\<close>

text \<open>
  The exceptions of the Python source that the model distinguishes. A function of the
  source that can raise returns \<open>py_error + 'a\<close>, with \<open>Inl\<close> for the exception.
\<close>

datatype py_error =
    KeyError | ZeroDivisionError | TypeError | NameError | ValueError
  | SyntaxError | OverflowError

definition bind_err :: "py_error + 'a \<Rightarrow> ('a \<Rightarrow> py_error + 'b) \<Rightarrow> py_error + 'b" where
  "bind_err m f = (case m of Inl e \<Rightarrow> Inl e | Inr v \<Rightarrow> f v)"

text \<open>Subscripting a dict, \<^verbatim>\<open>d[k]\<close>: the value, or \<^verbatim>\<open>KeyError\<close>.\<close>

definition getitem :: "('k \<times> 'v) list \<Rightarrow> 'k \<Rightarrow> py_error + 'v" where
  "getitem d k = (case map_of d k of None \<Rightarrow> Inl KeyError | Some v \<Rightarrow> Inr v)"

section \<open>Feature evaluator (\<^verbatim>\<open>SpeechAnalyzer._evaluate_speech_features\<close>)\<close>

text \<open>
  The five trait names are Japanese dictionary keys in the source; they are written here
  in romanised form: \<open>hayasa\<close> (speed), \<open>yokuyou\<close> (intonation), \<open>onryou\<close> (loudness),
  \<open>meiryousa\<close> (clarity) and \<open>ma\<close> (pause). Categories are the source's ASCII strings.
  A dict is an association list in insertion order.
\<close>

definition K_speed :: string where "K_speed = ''hayasa''"
definition K_intonation :: string where "K_intonation = ''yokuyou''"
definition K_loudness :: string where "K_loudness = ''onryou''"
definition K_clarity :: string where "K_clarity = ''meiryousa''"
definition K_pause :: string where "K_pause = ''ma''"

record metric_info =
  ideal_range :: "real \<times> real"
  feedback :: "(string \<times> string) list"

type_synonym voice_metrics_t = "(string \<times> metric_info) list"

text \<open>
  \<^verbatim>\<open>self.voice_metrics\<close> as \<^verbatim>\<open>__init__\<close> sets it. A feedback sentence (Japanese text in
  the source) is represented by a tag naming its trait and category.
\<close>

definition voice_metrics :: voice_metrics_t where
  "voice_metrics =
    [(K_speed, \<lparr>ideal_range = (120, 150),
        feedback = [(''too_slow'', ''speed/too_slow''), (''too_fast'', ''speed/too_fast''),
                    (''good'', ''speed/good'')]\<rparr>),
     (K_intonation, \<lparr>ideal_range = (5 / 10, 15 / 10),
        feedback = [(''too_flat'', ''intonation/too_flat''),
                    (''too_varied'', ''intonation/too_varied''),
                    (''good'', ''intonation/good'')]\<rparr>),
     (K_loudness, \<lparr>ideal_range = (60, 75),
        feedback = [(''too_quiet'', ''loudness/too_quiet''), (''too_loud'', ''loudness/too_loud''),
                    (''good'', ''loudness/good'')]\<rparr>),
     (K_clarity, \<lparr>ideal_range = (7 / 10, 1),
        feedback = [(''unclear'', ''clarity/unclear''), (''good'', ''clarity/good'')]\<rparr>),
     (K_pause, \<lparr>ideal_range = (5 / 10, 2),
        feedback = [(''too_few'', ''pause/too_few''), (''too_many'', ''pause/too_many''),
                    (''good'', ''pause/good'')]\<rparr>)]"

text \<open>\<^verbatim>\<open>self.voice_metrics[k]["ideal_range"]\<close>.\<close>

definition range_of :: "voice_metrics_t \<Rightarrow> string \<Rightarrow> py_error + (real \<times> real)" where
  "range_of vm k = bind_err (getitem vm k) (\<lambda>info. Inr (ideal_range info))"

text \<open>
  One \<^verbatim>\<open>if v < r[0] / elif v > r[1] / else\<close> block of the source, and the one-sided
  block of the clarity trait (\<^verbatim>\<open>if v < r[0] / else\<close>).
\<close>

definition classify_two_sided :: "string \<Rightarrow> string \<Rightarrow> real \<Rightarrow> real \<times> real \<Rightarrow> string" where
  "classify_two_sided low high v r =
     (if v < fst r then low else if v > snd r then high else ''good'')"

definition classify_one_sided :: "string \<Rightarrow> real \<Rightarrow> real \<times> real \<Rightarrow> string" where
  "classify_one_sided low v r = (if v < fst r then low else ''good'')"

definition evaluate_speech_features ::
  "voice_metrics_t \<Rightarrow> (string \<times> real) list \<Rightarrow> py_error + (string \<times> string) list" where
  "evaluate_speech_features vm features =
     bind_err (getitem features K_speed) (\<lambda>speed.
     bind_err (range_of vm K_speed) (\<lambda>speed_range.
     bind_err (getitem features K_intonation) (\<lambda>pitch_variation.
     bind_err (range_of vm K_intonation) (\<lambda>pitch_range.
     bind_err (getitem features K_loudness) (\<lambda>volume.
     bind_err (range_of vm K_loudness) (\<lambda>volume_range.
     bind_err (getitem features K_clarity) (\<lambda>clarity.
     bind_err (range_of vm K_clarity) (\<lambda>clarity_range.
     bind_err (getitem features K_pause) (\<lambda>pauses.
     bind_err (range_of vm K_pause) (\<lambda>pause_range.
       Inr [(K_speed, classify_two_sided ''too_slow'' ''too_fast'' speed speed_range),
            (K_intonation,
               classify_two_sided ''too_flat'' ''too_varied'' pitch_variation pitch_range),
            (K_loudness, classify_two_sided ''too_quiet'' ''too_loud'' volume volume_range),
            (K_clarity, classify_one_sided ''unclear'' clarity clarity_range),
            (K_pause, classify_two_sided ''too_few'' ''too_many'' pauses pause_range)]
     ))))))))))"

section \<open>Feedback composer (\<^verbatim>\<open>SpeechAnalyzer._generate_feedback\<close>)\<close>

record feedback_t =
  strengths :: "string list"
  improvements :: "string list"
  overall :: string
  advice :: "string list"

text \<open>
  The loop over \<^verbatim>\<open>evaluation.items()\<close>: each item is appended to the strengths list when
  its category is \<^verbatim>\<open>"good"\<close> and to the improvements list otherwise; the sentence is
  \<^verbatim>\<open>self.voice_metrics[metric]['feedback'][result]\<close>, which raises \<^verbatim>\<open>KeyError\<close> when the
  trait or the category is not in the table.
\<close>

definition feedback_line :: "voice_metrics_t \<Rightarrow> string \<Rightarrow> string \<Rightarrow> py_error + string" where
  "feedback_line vm metric result =
     bind_err (getitem vm metric) (\<lambda>info.
     bind_err (getitem (feedback info) result) (\<lambda>sentence.
       Inr (metric @ '': '' @ sentence)))"

fun collect_points ::
  "voice_metrics_t \<Rightarrow> (string \<times> string) list \<Rightarrow> string list \<times> string list
     \<Rightarrow> py_error + (string list \<times> string list)" where
  "collect_points vm [] acc = Inr acc"
| "collect_points vm ((metric, result) # rest) (good, bad) =
     bind_err (feedback_line vm metric result) (\<lambda>line.
       if result = ''good'' then collect_points vm rest (good @ [line], bad)
       else collect_points vm rest (good, bad @ [line]))"

text \<open>
  The overall assessment. The four sentences (Japanese in the source) are represented by
  the tags \<open>tier1\<close> (best) to \<open>tier4\<close> (worst). The score is the quotient of two
  lengths; it is compared with 0.8, 0.6 and 0.4. The quotient and the three constants are
  real numbers here and correctly rounded doubles in the source; rounding is monotone, so
  the comparisons agree unless the exact quotient lies within one rounding step (about
  \<open>1e-16\<close>) below a threshold, which needs more than \<open>10^15\<close> traits.
\<close>

definition tier_of :: "real \<Rightarrow> string" where
  "tier_of score =
     (if score \<ge> 8 / 10 then ''tier1''
      else if score \<ge> 6 / 10 then ''tier2''
      else if score \<ge> 4 / 10 then ''tier3''
      else ''tier4'')"

definition true_div :: "nat \<Rightarrow> nat \<Rightarrow> py_error + real" where
  "true_div a b = (if b = 0 then Inl ZeroDivisionError else Inr (real a / real b))"

text \<open>
  One advice rule: \<^verbatim>\<open>if k in evaluation and evaluation[k] != "good": append\<close>.
\<close>

definition advice_for :: "(string \<times> string) list \<Rightarrow> string \<Rightarrow> string \<Rightarrow> string list" where
  "advice_for evaluation k msg =
     (case map_of evaluation k of
        None \<Rightarrow> []
      | Some c \<Rightarrow> if c \<noteq> ''good'' then [msg] else [])"

text \<open>The advice list: one rule per trait, then the closing line that is always appended.\<close>

definition advice_of :: "(string \<times> string) list \<Rightarrow> string list" where
  "advice_of evaluation =
     advice_for evaluation K_speed ''advice/speed''
       @ advice_for evaluation K_intonation ''advice/intonation''
       @ advice_for evaluation K_loudness ''advice/loudness''
       @ advice_for evaluation K_clarity ''advice/clarity''
       @ advice_for evaluation K_pause ''advice/pause''
       @ [''advice/keep_practising'']"

definition generate_feedback ::
  "voice_metrics_t \<Rightarrow> (string \<times> string) list \<Rightarrow> py_error + feedback_t" where
  "generate_feedback vm evaluation =
     bind_err (collect_points vm evaluation ([], [])) (\<lambda>(good, bad).
     bind_err (true_div (length good) (length evaluation)) (\<lambda>score.
       Inr \<lparr>strengths = good, improvements = bad, overall = tier_of score,
            advice = advice_of evaluation\<rparr>))"

text \<open>The score that \<^verbatim>\<open>_generate_feedback\<close> computes, for the statements below.\<close>

definition score_of :: "voice_metrics_t \<Rightarrow> (string \<times> string) list \<Rightarrow> py_error + real" where
  "score_of vm evaluation =
     bind_err (collect_points vm evaluation ([], [])) (\<lambda>(good, bad).
       true_div (length good) (length evaluation))"

section \<open>Spectral analyzer (\<^verbatim>\<open>make_spectrogram_plot\<close>, \<^verbatim>\<open>analyze_spectrum_for_comment\<close>)\<close>

text \<open>
  Samples and magnitudes are real numbers: the arithmetic of the model is exact, where the
  source computes in 32-bit and 64-bit floating point. The two functions of the source
  repeat the same framing code, modelled once: the constants, the cap to the first
  \<^verbatim>\<open>max_seconds\<close> seconds (\<^verbatim>\<open>x[: sr * max_seconds]\<close>), the number of frames and the loop
  over the frames.
\<close>

definition n_fft :: nat where "n_fft = 1024"
definition hop :: nat where "hop = 512"
definition max_seconds :: int where "max_seconds = 10"

text \<open>\<^verbatim>\<open>np.pad(xs, (0, k))\<close>: \<open>k\<close> zeros after the samples.\<close>

definition pad_right :: "'a::zero list \<Rightarrow> nat \<Rightarrow> 'a list" where
  "pad_right xs k = xs @ replicate k 0"

definition cap_seconds :: "'a list \<Rightarrow> int \<Rightarrow> 'a list" where
  "cap_seconds x sr =
     (if int (length x) > sr * max_seconds then take (nat (sr * max_seconds)) x else x)"

text \<open>
  \<^verbatim>\<open>n_frames = 1 + max(0, (len(x) - n_fft) // hop)\<close>, with Python's floor division on a
  difference that is negative for a short input.
\<close>

definition n_frames_of :: "nat \<Rightarrow> int" where
  "n_frames_of len = 1 + max 0 ((int len - int n_fft) div int hop)"

text \<open>
  The body of the loop up to the window: the slice \<^verbatim>\<open>x[start : start + n_fft]\<close>, padded
  with zeros when it is shorter than \<^verbatim>\<open>n_fft\<close>.
\<close>

definition frame_at :: "'a::zero list \<Rightarrow> nat \<Rightarrow> 'a list" where
  "frame_at x i =
     (let start = i * hop;
          frame = take n_fft (drop start x)
      in if length frame < n_fft then pad_right frame (n_fft - length frame) else frame)"

text \<open>
  The frames of a signal, with the branch \<^verbatim>\<open>if n_frames <= 0\<close> of the source (padding the
  whole signal and taking one frame) kept as it is written.
\<close>

definition stft_frames :: "'a::zero list \<Rightarrow> 'a list list" where
  "stft_frames x0 =
     (let n_frames0 = n_frames_of (length x0);
          x = (if n_frames0 \<le> 0
               then pad_right x0 (nat (max 0 (int n_fft - int (length x0)))) else x0);
          n_frames = (if n_frames0 \<le> 0 then 1 else n_frames0)
      in map (frame_at x) [0..<nat n_frames])"

text \<open>
  The library functions the source calls, from their documentation: the Hann window
  \<^verbatim>\<open>np.hanning(M)\<close> with \<open>w(n) = 0.5 - 0.5 cos(2 pi n / (M - 1))\<close>, the one-sided discrete
  Fourier transform \<^verbatim>\<open>np.fft.rfft\<close> with bins \<open>0\<close> to \<open>N div 2\<close>, and the bin frequencies
  \<^verbatim>\<open>np.fft.rfftfreq(n, d)\<close> with \<open>f(k) = k / (n d)\<close>.
\<close>

definition hanning :: "nat \<Rightarrow> real list" where
  "hanning M =
     (if M = 0 then [] else if M = 1 then [1]
      else map (\<lambda>n. 1 / 2 - 1 / 2 * cos (2 * pi * real n / real (M - 1))) [0..<M])"

definition rfft :: "real list \<Rightarrow> complex list" where
  "rfft a =
     map (\<lambda>k. \<Sum>n<length a.
                of_real (a ! n) * cis (- (2 * pi * real k * real n / real (length a))))
         [0..<length a div 2 + 1]"

definition rfftfreq :: "nat \<Rightarrow> real \<Rightarrow> real list" where
  "rfftfreq n d = map (\<lambda>k. real k / (real n * d)) [0..<n div 2 + 1]"

text \<open>
  The magnitude spectrogram, one row for each frame and one entry for each frequency bin
  (the source transposes it to \<^verbatim>\<open>[freq, time]\<close>, which changes no sum).
\<close>

definition spec_mag :: "real list \<Rightarrow> real list list" where
  "spec_mag x =
     map (\<lambda>frame. map cmod (rfft (map2 (*) frame (hanning n_fft)))) (stft_frames x)"

text \<open>
  \<^verbatim>\<open>spec_mag[mask].sum()\<close> for a mask on the frequencies, and \<^verbatim>\<open>spec_mag.sum()\<close>.
\<close>

definition band_sum :: "(real \<Rightarrow> bool) \<Rightarrow> real list \<Rightarrow> real list list \<Rightarrow> real" where
  "band_sum P freqs spec =
     sum_list (map (\<lambda>row. sum_list (map fst (filter (\<lambda>(m, f). P f) (zip row freqs)))) spec)"

definition total_mag :: "real list list \<Rightarrow> real" where
  "total_mag spec = sum_list (map sum_list spec)"

record band_energy =
  duration :: real
  ratio_low :: real
  ratio_mid :: real
  ratio_high :: real

definition analyze_spectrum_for_comment :: "real list \<Rightarrow> int \<Rightarrow> band_energy" where
  "analyze_spectrum_for_comment x0 sr =
     (if x0 = [] \<or> sr \<le> 0
      then \<lparr>duration = 0, ratio_low = 0, ratio_mid = 0, ratio_high = 0\<rparr>
      else
        let x = cap_seconds x0 sr;
            spec = spec_mag x;
            freqs = rfftfreq n_fft (1 / real_of_int sr);
            total = total_mag spec + 1 / 10 ^ 12;
            low_band = band_sum (\<lambda>f. f < 300) freqs spec;
            mid_band = band_sum (\<lambda>f. f \<ge> 300 \<and> f < 3000) freqs spec;
            high_band = band_sum (\<lambda>f. f \<ge> 3000) freqs spec
        in \<lparr>duration = real (length x) / real_of_int sr,
            ratio_low = low_band / total,
            ratio_mid = mid_band / total,
            ratio_high = high_band / total\<rparr>)"

text \<open>
  What \<^verbatim>\<open>make_spectrogram_plot\<close> hands to the heat map: the spectrogram in decibels, the
  frame times and the bin frequencies; \<open>None\<close> stands for the empty figure.
\<close>

definition make_spectrogram_plot ::
  "real list \<Rightarrow> int \<Rightarrow> (real list list \<times> real list \<times> real list) option" where
  "make_spectrogram_plot x0 sr =
     (if x0 = [] \<or> sr \<le> 0 then None
      else
        let x = cap_seconds x0 sr;
            spec = spec_mag x;
            spec_db = map (map (\<lambda>m. 20 * log 10 (m + 1 / 10 ^ 8))) spec;
            freqs = rfftfreq n_fft (1 / real_of_int sr);
            times = map (\<lambda>t. real t * (real hop / real_of_int sr)) [0..<length spec]
        in Some (spec_db, times, freqs))"

section \<open>Signal preprocessor (\<^verbatim>\<open>on_audio_change\<close>, \<^verbatim>\<open>normalize_for_saving\<close>)\<close>

subsection \<open>Floating-point values\<close>

text \<open>
  A sample or a metric is a floating-point value: a finite number, an infinity or NaN.
  The finite values are real numbers and their arithmetic is exact (no rounding, no
  overflow, one zero); the special values follow IEEE 754: every operation on NaN gives
  NaN, every comparison with NaN is false, \<open>inf - inf\<close>, \<open>0 * inf\<close>, \<open>0 / 0\<close> and
  \<open>inf / inf\<close> give NaN.
\<close>

datatype pyfloat = Fin real | PInf | NInf | NaN

fun is_finite :: "pyfloat \<Rightarrow> bool" where
  "is_finite (Fin r) = True"
| "is_finite _ = False"

fun fabs :: "pyfloat \<Rightarrow> pyfloat" where
  "fabs (Fin r) = Fin \<bar>r\<bar>"
| "fabs PInf = PInf"
| "fabs NInf = PInf"
| "fabs NaN = NaN"

fun flt :: "pyfloat \<Rightarrow> pyfloat \<Rightarrow> bool" where
  "flt NaN _ = False"
| "flt _ NaN = False"
| "flt (Fin a) (Fin b) = (a < b)"
| "flt (Fin a) PInf = True"
| "flt (Fin a) NInf = False"
| "flt PInf _ = False"
| "flt NInf (Fin b) = True"
| "flt NInf PInf = True"
| "flt NInf NInf = False"

definition fgt :: "pyfloat \<Rightarrow> pyfloat \<Rightarrow> bool" where
  "fgt a b = flt b a"

fun fadd :: "pyfloat \<Rightarrow> pyfloat \<Rightarrow> pyfloat" where
  "fadd NaN _ = NaN"
| "fadd _ NaN = NaN"
| "fadd (Fin a) (Fin b) = Fin (a + b)"
| "fadd PInf NInf = NaN"
| "fadd NInf PInf = NaN"
| "fadd PInf _ = PInf"
| "fadd NInf _ = NInf"
| "fadd (Fin a) PInf = PInf"
| "fadd (Fin a) NInf = NInf"

definition signed_inf :: "bool \<Rightarrow> pyfloat" where
  "signed_inf positive = (if positive then PInf else NInf)"

fun fmul :: "pyfloat \<Rightarrow> pyfloat \<Rightarrow> pyfloat" where
  "fmul NaN _ = NaN"
| "fmul _ NaN = NaN"
| "fmul (Fin a) (Fin b) = Fin (a * b)"
| "fmul (Fin a) PInf = (if a = 0 then NaN else signed_inf (a > 0))"
| "fmul (Fin a) NInf = (if a = 0 then NaN else signed_inf (a < 0))"
| "fmul PInf (Fin b) = (if b = 0 then NaN else signed_inf (b > 0))"
| "fmul NInf (Fin b) = (if b = 0 then NaN else signed_inf (b < 0))"
| "fmul PInf PInf = PInf"
| "fmul PInf NInf = NInf"
| "fmul NInf PInf = NInf"
| "fmul NInf NInf = PInf"

fun fdiv :: "pyfloat \<Rightarrow> pyfloat \<Rightarrow> pyfloat" where
  "fdiv NaN _ = NaN"
| "fdiv _ NaN = NaN"
| "fdiv (Fin a) (Fin b) =
     (if b \<noteq> 0 then Fin (a / b) else if a = 0 then NaN else signed_inf (a > 0))"
| "fdiv (Fin a) PInf = Fin 0"
| "fdiv (Fin a) NInf = Fin 0"
| "fdiv PInf (Fin b) = signed_inf (b \<ge> 0)"
| "fdiv NInf (Fin b) = signed_inf (b < 0)"
| "fdiv PInf PInf = NaN"
| "fdiv PInf NInf = NaN"
| "fdiv NInf PInf = NaN"
| "fdiv NInf NInf = NaN"

fun fsqrt :: "pyfloat \<Rightarrow> pyfloat" where
  "fsqrt (Fin r) = (if r < 0 then NaN else Fin (sqrt r))"
| "fsqrt PInf = PInf"
| "fsqrt NInf = NaN"
| "fsqrt NaN = NaN"

fun flog10 :: "pyfloat \<Rightarrow> pyfloat" where
  "flog10 (Fin r) = (if r < 0 then NaN else if r = 0 then NInf else Fin (log 10 r))"
| "flog10 PInf = PInf"
| "flog10 NInf = NaN"
| "flog10 NaN = NaN"

text \<open>
  \<^verbatim>\<open>np.max\<close> of an array propagates NaN and raises \<^verbatim>\<open>ValueError\<close> on an empty array;
  Python's built-in \<^verbatim>\<open>max(a, b)\<close> and \<^verbatim>\<open>min(a, b)\<close> keep the first argument unless the
  second is strictly greater (smaller), so a NaN in first place stays.
\<close>

definition np_maximum :: "pyfloat \<Rightarrow> pyfloat \<Rightarrow> pyfloat" where
  "np_maximum a b = (if a = NaN \<or> b = NaN then NaN else if flt a b then b else a)"

fun amax :: "pyfloat list \<Rightarrow> py_error + pyfloat" where
  "amax [] = Inl ValueError"
| "amax (v # vs) = Inr (foldl np_maximum v vs)"

definition py_max :: "pyfloat \<Rightarrow> pyfloat \<Rightarrow> pyfloat" where
  "py_max a b = (if fgt b a then b else a)"

definition py_min :: "pyfloat \<Rightarrow> pyfloat \<Rightarrow> pyfloat" where
  "py_min a b = (if flt b a then b else a)"

text \<open>\<^verbatim>\<open>np.mean\<close> of an array of floats, and of an array of booleans.\<close>

definition np_mean :: "pyfloat list \<Rightarrow> pyfloat" where
  "np_mean xs = fdiv (foldl fadd (Fin 0) xs) (Fin (real (length xs)))"

definition mean_bool :: "bool list \<Rightarrow> pyfloat" where
  "mean_bool bs = Fin (real (length (filter id bs)) / real (length bs))"

subsection \<open>Signal metrics\<close>

text \<open>\<^verbatim>\<open>float(np.max(np.abs(x))) if x.size else 0.0\<close>.\<close>

definition abs_peak :: "pyfloat list \<Rightarrow> py_error + pyfloat" where
  "abs_peak x = (if x \<noteq> [] then amax (map fabs x) else Inr (Fin 0))"

text \<open>
  The automatic detection of the input range: division by 32768 when the raw peak exceeds
  1.5, then division by the peak when it still exceeds 1.0. The result is the array
  \<^verbatim>\<open>x_f32\<close> that the metrics are computed from.
\<close>

definition range_autodetect :: "pyfloat list \<Rightarrow> py_error + pyfloat list" where
  "range_autodetect x0 =
     bind_err (abs_peak x0) (\<lambda>peak_raw0.
     bind_err (if fgt peak_raw0 (Fin (15 / 10))
               then (let x1 = map (\<lambda>v. fdiv v (Fin 32768)) x0
                     in bind_err (amax (map fabs x1)) (\<lambda>p. Inr (x1, p)))
               else Inr (x0, peak_raw0)) (\<lambda>(x1, peak_raw1).
       if fgt peak_raw1 (Fin 1) then Inr (map (\<lambda>v. fdiv v peak_raw1) x1) else Inr x1))"

record signal_metrics =
  peak :: pyfloat
  rms :: pyfloat
  dbfs :: pyfloat
  clip_ratio :: pyfloat
  silence_ratio :: pyfloat
  crest_factor :: pyfloat

text \<open>
  The metrics of \<^verbatim>\<open>on_audio_change\<close>, as a function of the samples and of the two
  thresholds \<^verbatim>\<open>clip_level\<close> and \<^verbatim>\<open>silence_thresh\<close> (chosen before, automatically or from
  the sliders). The source applies no \<^verbatim>\<open>np.nan_to_num\<close> here.
\<close>

definition compute_signal_metrics ::
  "pyfloat list \<Rightarrow> pyfloat \<Rightarrow> pyfloat \<Rightarrow> py_error + signal_metrics" where
  "compute_signal_metrics x clip_level silence_thresh =
     bind_err (range_autodetect x) (\<lambda>x_f32.
     bind_err (abs_peak x_f32) (\<lambda>peak.
       let rms = (if x_f32 \<noteq> [] then fsqrt (np_mean (map (\<lambda>v. fmul v v) x_f32)) else Fin 0);
           dbfs = fmul (Fin 20) (flog10 (py_max rms (Fin (1 / 10 ^ 12))));
           clip_ratio = (if x_f32 \<noteq> []
                         then mean_bool (map (\<lambda>v. fgt (fabs v) clip_level) x_f32) else Fin 0);
           silence_ratio = (if x_f32 \<noteq> []
                         then mean_bool (map (\<lambda>v. flt (fabs v) silence_thresh) x_f32) else Fin 1);
           crest_factor = (if fgt rms (Fin 0)
                           then fdiv peak (fadd rms (Fin (1 / 10 ^ 12))) else PInf)
       in Inr \<lparr>peak = peak, rms = rms, dbfs = dbfs, clip_ratio = clip_ratio,
               silence_ratio = silence_ratio, crest_factor = crest_factor\<rparr>))"

subsection \<open>Normalization for saving\<close>

text \<open>\<^verbatim>\<open>np.nan_to_num(x, nan=0.0, posinf=0.0, neginf=0.0)\<close> on one value, and \<^verbatim>\<open>np.clip\<close>.\<close>

fun nan_to_num :: "pyfloat \<Rightarrow> pyfloat" where
  "nan_to_num (Fin r) = Fin r"
| "nan_to_num _ = Fin 0"

definition np_minimum :: "pyfloat \<Rightarrow> pyfloat \<Rightarrow> pyfloat" where
  "np_minimum a b = (if a = NaN \<or> b = NaN then NaN else if flt b a then b else a)"

definition np_clip :: "pyfloat \<Rightarrow> pyfloat \<Rightarrow> pyfloat \<Rightarrow> pyfloat" where
  "np_clip v lo hi = np_minimum (np_maximum v lo) hi"

text \<open>\<^verbatim>\<open>safe_peak\<close>: the peak of the absolute values with NaN and infinities read as 0.\<close>

definition safe_peak :: "pyfloat list \<Rightarrow> py_error + pyfloat" where
  "safe_peak x = (if x = [] then Inr (Fin 0) else amax (map fabs (map nan_to_num x)))"

text \<open>
  \<^verbatim>\<open>normalize_for_saving\<close>. An absent or empty array gives \<^verbatim>\<open>np.zeros(1)\<close>; a peak below
  \<open>1e-6\<close> leaves the (sanitized) array as it is; otherwise the array is divided by a peak
  above 1, scaled by \<^verbatim>\<open>target_peak / max(peak, 1e-6)\<close> and clipped to \<open>[-1, 1]\<close>.

  The rounding of the arithmetic is a parameter here, since a statement below depends on
  it: \<open>r32\<close> rounds a result to a 32-bit float (the conversion \<^verbatim>\<open>astype(np.float32)\<close>, the
  quotient and the product of a 32-bit array, and the Python float \<^verbatim>\<open>scale\<close> when it
  meets the 32-bit array) and \<open>r64\<close> rounds to a double (the quotient of two Python
  floats). The identity for both is exact arithmetic.
\<close>

fun rnd :: "(real \<Rightarrow> real) \<Rightarrow> pyfloat \<Rightarrow> pyfloat" where
  "rnd r (Fin x) = Fin (r x)"
| "rnd r v = v"


definition normalize_for_saving ::
  "(real \<Rightarrow> real) \<Rightarrow> (real \<Rightarrow> real) \<Rightarrow> pyfloat list \<Rightarrow> real \<Rightarrow> py_error + pyfloat list" where
  "normalize_for_saving r32 r64 x target_peak =
     (if x = [] then Inr [Fin 0]
      else
        let xp = map nan_to_num (map (rnd r32) x) in
        bind_err (safe_peak xp) (\<lambda>peak.
          if flt peak (Fin (1 / 10 ^ 6)) then Inr xp
          else
            let xp1 = (if fgt peak (Fin 1) then map (\<lambda>v. rnd r32 (fdiv v peak)) xp else xp);
                peak1 = (if fgt peak (Fin 1) then Fin 1 else peak);
                scale = rnd r64 (fdiv (Fin target_peak) (py_max peak1 (Fin (1 / 10 ^ 6))))
            in Inr (map (\<lambda>v. np_clip (rnd r32 (fmul v (rnd r32 scale))) (Fin (- 1)) (Fin 1))
                      xp1)))"

text \<open>
  The two roundings of the source, to nearest with ties to even and with an unbounded
  exponent range: to the 24 bits of a 32-bit float and to the 53 bits of a double; and the
  double that the literal \<^verbatim>\<open>0.98\<close> denotes.
\<close>

definition rne :: "real \<Rightarrow> int" where
  "rne q =
     (let f = \<lfloor>q\<rfloor>
      in if q - of_int f < 1 / 2 then f
         else if 1 / 2 < q - of_int f then f + 1
         else if even f then f else f + 1)"

definition pow2 :: "int \<Rightarrow> real" where
  "pow2 e = (if 0 \<le> e then 2 ^ nat e else 1 / 2 ^ nat (- e))"

definition fl :: "nat \<Rightarrow> real \<Rightarrow> real" where
  "fl prec x =
     (if x = 0 then 0
      else let e = \<lfloor>log 2 \<bar>x\<bar>\<rfloor> - int prec + 1
           in of_int (rne (x / pow2 e)) * pow2 e)"

definition double_098 :: real where
  "double_098 = 2206763817411543 / 2251799813685248"

section \<open>Rule engine (\<^verbatim>\<open>_safe_eval_expr\<close>, \<^verbatim>\<open>render_rule_based_feedback\<close>)\<close>

subsection \<open>Expression trees\<close>

text \<open>
  The trees that \<^verbatim>\<open>ast.parse(expr, mode="eval")\<close> returns, with the node classes of Python's
  \<^verbatim>\<open>ast\<close> module: the operator and context classes, the expression classes that the
  allow-list names, \<^verbatim>\<open>Call\<close>, \<^verbatim>\<open>Attribute\<close> and \<^verbatim>\<open>Subscript\<close>, and \<open>OtherExpr\<close> for every
  other expression class (with the name of the class and the child expressions). The
  unary operator \<^verbatim>\<open>Not\<close> is written \<open>NotOp\<close>. A value is a constant of the source text,
  a number of the metrics environment, or the empty dict that the globals of the
  evaluation bind to \<^verbatim>\<open>__builtins__\<close>.
\<close>

datatype boolop = And | Or

datatype operator =
    Add | Sub | Mult | MatMult | Div | Mod | Pow
  | LShift | RShift | BitOr | BitXor | BitAnd | FloorDiv

datatype unaryop = Invert | NotOp | UAdd | USub

datatype cmpop = Eq | NotEq | Lt | LtE | Gt | GtE | Is | IsNot | In | NotIn

datatype expr_context = Load | Store | Del

datatype pyvalue =
    VNone | VEllipsis | VBool bool | VInt int | VFloat pyfloat
  | VComplex pyfloat pyfloat | VStr string | VBytes string | VEmptyDict

datatype expr =
    BoolOp boolop "expr list"
  | BinOp expr operator expr
  | UnaryOp unaryop expr
  | Compare expr "cmpop list" "expr list"
  | Name string expr_context
  | Constant pyvalue
  | Call expr "expr list"
  | Attribute expr string expr_context
  | Subscript expr expr expr_context
  | OtherExpr string "expr list"

datatype ast_mod = Expression expr

text \<open>
  The class of a node, as \<^verbatim>\<open>type(node)\<close> gives it, and the allow-list \<^verbatim>\<open>_ALLOWED_NODES\<close>
  of the source in its order.
\<close>

datatype node_class =
    C_Expression | C_BoolOp | C_BinOp | C_UnaryOp | C_Compare | C_Name | C_Constant
  | C_Call | C_Attribute | C_Subscript | C_OtherExpr string
  | C_boolop boolop | C_operator operator | C_unaryop unaryop | C_cmpop cmpop
  | C_context expr_context

definition ALLOWED_NODES :: "node_class list" where
  "ALLOWED_NODES =
     [C_Expression, C_BoolOp, C_BinOp, C_UnaryOp, C_Compare,
      C_Name, C_context Load, C_Constant, C_boolop And, C_boolop Or,
      C_cmpop Gt, C_cmpop GtE, C_cmpop Lt, C_cmpop LtE, C_cmpop Eq, C_cmpop NotEq,
      C_operator Add, C_operator Sub, C_operator Mult, C_operator Div, C_operator Mod,
      C_operator Pow, C_unaryop USub, C_unaryop UAdd]"

definition allowed :: "node_class \<Rightarrow> bool" where
  "allowed c = (c \<in> set ALLOWED_NODES)"

text \<open>
  The classes of all nodes of a tree, in the order in which \<^verbatim>\<open>_check\<close> visits them with
  \<^verbatim>\<open>ast.iter_child_nodes\<close>. \<^verbatim>\<open>_check\<close> raises \<^verbatim>\<open>ValueError\<close> at the first class outside the
  allow-list.
\<close>

fun node_classes :: "expr \<Rightarrow> node_class list" where
  "node_classes (BoolOp op vs) = C_BoolOp # C_boolop op # concat (map node_classes vs)"
| "node_classes (BinOp l op r) = C_BinOp # node_classes l @ C_operator op # node_classes r"
| "node_classes (UnaryOp op v) = C_UnaryOp # C_unaryop op # node_classes v"
| "node_classes (Compare l ops cs) =
     C_Compare # node_classes l @ map C_cmpop ops @ concat (map node_classes cs)"
| "node_classes (Name n ctx) = [C_Name, C_context ctx]"
| "node_classes (Constant v) = [C_Constant]"
| "node_classes (Call f args) = C_Call # node_classes f @ concat (map node_classes args)"
| "node_classes (Attribute v a ctx) = C_Attribute # node_classes v @ [C_context ctx]"
| "node_classes (Subscript v s ctx) =
     C_Subscript # node_classes v @ node_classes s @ [C_context ctx]"
| "node_classes (OtherExpr k vs) = C_OtherExpr k # concat (map node_classes vs)"

fun mod_classes :: "ast_mod \<Rightarrow> node_class list" where
  "mod_classes (Expression body) = C_Expression # node_classes body"

definition check :: "ast_mod \<Rightarrow> py_error + unit" where
  "check tree = (if list_all allowed (mod_classes tree) then Inr () else Inl ValueError)"

subsection \<open>Evaluation\<close>

text \<open>\<^verbatim>\<open>bool(v)\<close>.\<close>

fun truthy :: "pyvalue \<Rightarrow> bool" where
  "truthy VNone = False"
| "truthy VEllipsis = True"
| "truthy (VBool b) = b"
| "truthy (VInt i) = (i \<noteq> 0)"
| "truthy (VFloat f) = (f \<noteq> Fin 0)"
| "truthy (VComplex re im) = (\<not> (re = Fin 0 \<and> im = Fin 0))"
| "truthy (VStr s) = (s \<noteq> [])"
| "truthy (VBytes s) = (s \<noteq> [])"
| "truthy VEmptyDict = False"

text \<open>
  Comparisons. Booleans, integers and floats compare by their numeric value, exactly;
  NaN is equal to nothing; strings and bytes are ordered lexicographically; equality
  between other kinds is false and an ordering between other kinds raises \<^verbatim>\<open>TypeError\<close>.
\<close>

definition feq :: "pyfloat \<Rightarrow> pyfloat \<Rightarrow> bool" where
  "feq a b = (a \<noteq> NaN \<and> a = b)"

fun real_number :: "pyvalue \<Rightarrow> pyfloat option" where
  "real_number (VBool b) = Some (Fin (if b then 1 else 0))"
| "real_number (VInt i) = Some (Fin (of_int i))"
| "real_number (VFloat f) = Some f"
| "real_number _ = None"

fun complex_number :: "pyvalue \<Rightarrow> (pyfloat \<times> pyfloat) option" where
  "complex_number (VComplex re im) = Some (re, im)"
| "complex_number v = (case real_number v of Some f \<Rightarrow> Some (f, Fin 0) | None \<Rightarrow> None)"

definition py_eq :: "pyvalue \<Rightarrow> pyvalue \<Rightarrow> bool" where
  "py_eq v w =
     (case (complex_number v, complex_number w) of
        (Some (a, b), Some (c, d)) \<Rightarrow> feq a c \<and> feq b d
      | (Some _, None) \<Rightarrow> False
      | (None, Some _) \<Rightarrow> False
      | (None, None) \<Rightarrow> v = w)"

definition py_lt :: "pyvalue \<Rightarrow> pyvalue \<Rightarrow> py_error + bool" where
  "py_lt v w =
     (case (real_number v, real_number w) of
        (Some a, Some b) \<Rightarrow> Inr (flt a b)
      | _ \<Rightarrow>
        (case (v, w) of
           (VStr s, VStr t) \<Rightarrow> Inr (s < t)
         | (VBytes s, VBytes t) \<Rightarrow> Inr (s < t)
         | _ \<Rightarrow> Inl TypeError))"

definition py_le :: "pyvalue \<Rightarrow> pyvalue \<Rightarrow> py_error + bool" where
  "py_le v w =
     (case (real_number v, real_number w) of
        (Some a, Some b) \<Rightarrow> Inr (flt a b \<or> feq a b)
      | _ \<Rightarrow>
        (case (v, w) of
           (VStr s, VStr t) \<Rightarrow> Inr (s \<le> t)
         | (VBytes s, VBytes t) \<Rightarrow> Inr (s \<le> t)
         | _ \<Rightarrow> Inl TypeError))"

fun compare_op :: "cmpop \<Rightarrow> pyvalue \<Rightarrow> pyvalue \<Rightarrow> py_error + pyvalue" where
  "compare_op Eq v w = Inr (VBool (py_eq v w))"
| "compare_op NotEq v w = Inr (VBool (\<not> py_eq v w))"
| "compare_op Lt v w = bind_err (py_lt v w) (\<lambda>b. Inr (VBool b))"
| "compare_op LtE v w = bind_err (py_le v w) (\<lambda>b. Inr (VBool b))"
| "compare_op Gt v w = bind_err (py_lt w v) (\<lambda>b. Inr (VBool b))"
| "compare_op GtE v w = bind_err (py_le w v) (\<lambda>b. Inr (VBool b))"
| "compare_op _ v w = Inl ValueError"

text \<open>
  A name is looked up in the locals (the metrics environment), then in the globals
  \<^verbatim>\<open>{"__builtins__": {}}\<close>, then in the builtins, which are the empty dict.
\<close>

definition lookup_name :: "(string \<rightharpoonup> pyvalue) \<Rightarrow> string \<Rightarrow> py_error + pyvalue" where
  "lookup_name env n =
     (case env n of
        Some v \<Rightarrow> Inr v
      | None \<Rightarrow> if n = ''__builtins__'' then Inr VEmptyDict else Inl NameError)"

text \<open>
  The evaluation of a checked tree. Python's arithmetic on values (the binary operators
  and the unary operators, with every exception they can raise) is not code of this
  repository and is a parameter. \<^verbatim>\<open>and\<close> and \<^verbatim>\<open>or\<close> return the deciding operand; a chain
  of comparisons stops at the first false one. On a node outside the allow-list, which
  the check rejects before, the value is the check's \<^verbatim>\<open>ValueError\<close>.
\<close>

type_synonym arith_t = "operator \<Rightarrow> pyvalue \<Rightarrow> pyvalue \<Rightarrow> py_error + pyvalue"
type_synonym unary_t = "unaryop \<Rightarrow> pyvalue \<Rightarrow> py_error + pyvalue"

fun eval_expr :: "arith_t \<Rightarrow> unary_t \<Rightarrow> (string \<rightharpoonup> pyvalue) \<Rightarrow> expr \<Rightarrow> py_error + pyvalue"
  and eval_boolop ::
    "arith_t \<Rightarrow> unary_t \<Rightarrow> (string \<rightharpoonup> pyvalue) \<Rightarrow> boolop \<Rightarrow> expr list \<Rightarrow> py_error + pyvalue"
  and eval_chain ::
    "arith_t \<Rightarrow> unary_t \<Rightarrow> (string \<rightharpoonup> pyvalue) \<Rightarrow> pyvalue \<Rightarrow> cmpop list \<Rightarrow> expr list
       \<Rightarrow> py_error + pyvalue"
where
  "eval_expr arith unary env (Constant v) = Inr v"
| "eval_expr arith unary env (Name n ctx) = lookup_name env n"
| "eval_expr arith unary env (UnaryOp op v) =
     bind_err (eval_expr arith unary env v) (unary op)"
| "eval_expr arith unary env (BinOp l op r) =
     bind_err (eval_expr arith unary env l) (\<lambda>a.
     bind_err (eval_expr arith unary env r) (\<lambda>b. arith op a b))"
| "eval_expr arith unary env (BoolOp op vs) = eval_boolop arith unary env op vs"
| "eval_expr arith unary env (Compare l ops cs) =
     bind_err (eval_expr arith unary env l) (\<lambda>a. eval_chain arith unary env a ops cs)"
| "eval_expr arith unary env (Call f args) = Inl ValueError"
| "eval_expr arith unary env (Attribute v a ctx) = Inl ValueError"
| "eval_expr arith unary env (Subscript v s ctx) = Inl ValueError"
| "eval_expr arith unary env (OtherExpr k vs) = Inl ValueError"
| "eval_boolop arith unary env op [] = Inl ValueError"
| "eval_boolop arith unary env op [v] = eval_expr arith unary env v"
| "eval_boolop arith unary env op (v # w # vs) =
     bind_err (eval_expr arith unary env v) (\<lambda>a.
       if (op = And \<and> \<not> truthy a) \<or> (op = Or \<and> truthy a) then Inr a
       else eval_boolop arith unary env op (w # vs))"
| "eval_chain arith unary env a [] [] = Inl ValueError"
| "eval_chain arith unary env a [op] [c] =
     bind_err (eval_expr arith unary env c) (\<lambda>b. compare_op op a b)"
| "eval_chain arith unary env a (op # op' # ops) (c # c' # cs) =
     bind_err (eval_expr arith unary env c) (\<lambda>b.
     bind_err (compare_op op a b) (\<lambda>r.
       if \<not> truthy r then Inr r else eval_chain arith unary env b (op' # ops) (c' # cs)))"
| "eval_chain arith unary env a _ _ = Inl ValueError"

fun eval_mod :: "arith_t \<Rightarrow> unary_t \<Rightarrow> (string \<rightharpoonup> pyvalue) \<Rightarrow> ast_mod \<Rightarrow> py_error + pyvalue" where
  "eval_mod arith unary env (Expression body) = eval_expr arith unary env body"

text \<open>
  \<^verbatim>\<open>_safe_eval_expr\<close>: the parser is a parameter; its exception, the exception of the check
  and the exception of the evaluation are caught and give \<^verbatim>\<open>False\<close>.
\<close>

definition safe_eval_tree ::
  "arith_t \<Rightarrow> unary_t \<Rightarrow> py_error + ast_mod \<Rightarrow> (string \<rightharpoonup> pyvalue) \<Rightarrow> bool" where
  "safe_eval_tree arith unary parsed env =
     (case parsed of
        Inl e \<Rightarrow> False
      | Inr tree \<Rightarrow>
        (case bind_err (check tree) (\<lambda>_. eval_mod arith unary env tree) of
           Inl e \<Rightarrow> False
         | Inr v \<Rightarrow> truthy v))"

definition safe_eval_expr ::
  "(string \<Rightarrow> py_error + ast_mod) \<Rightarrow> arith_t \<Rightarrow> unary_t \<Rightarrow> string \<Rightarrow> (string \<rightharpoonup> pyvalue) \<Rightarrow> bool" where
  "safe_eval_expr parse arith unary expr env = safe_eval_tree arith unary (parse expr) env"

subsection \<open>Templates\<close>

text \<open>
  The template data that \<^verbatim>\<open>load_templates_if_changed\<close> returns: sections with a heading
  and rules, rules with a condition and a text (a string or a list of strings); a key
  that is absent is \<open>None\<close>. \<open>None\<close> for the whole data stands for no data and for data
  without the key \<^verbatim>\<open>sections\<close>.
\<close>

datatype text_value = TStr string | TList "string list"

record tpl_rule =
  rule_if :: "string option"
  rule_text :: "text_value option"

record tpl_section =
  heading :: "string option"
  rules :: "tpl_rule list option"

text \<open>A line feed, and the default heading (Japanese text in the source).\<close>

definition NL :: string where "NL = [CHR 0x0A]"

definition default_heading :: string where
  "default_heading = ''<default heading>''"

text \<open>\<^verbatim>\<open>str.strip()\<close> on code points below 256, and the truth value of a text.\<close>

definition py_isspace :: "char \<Rightarrow> bool" where
  "py_isspace c = (of_char c \<in> {9, 10, 11, 12, 13, 28, 29, 30, 31, 32, 133, 160 :: nat})"

definition strip :: "string \<Rightarrow> string" where
  "strip s = rev (dropWhile py_isspace (rev (dropWhile py_isspace s)))"

fun text_truthy :: "text_value \<Rightarrow> bool" where
  "text_truthy (TStr s) = (s \<noteq> [])"
| "text_truthy (TList xs) = (xs \<noteq> [])"

fun join :: "string \<Rightarrow> string list \<Rightarrow> string" where
  "join sep [] = []"
| "join sep [x] = x"
| "join sep (x # y # ys) = x @ sep @ join sep (y # ys)"

text \<open>
  \<^verbatim>\<open>random.choice\<close> is a parameter: from the state of the generator and a list, an entry
  and the next state.
\<close>

type_synonym 'g choice_t = "'g \<Rightarrow> string list \<Rightarrow> string \<times> 'g"

text \<open>
  \<^verbatim>\<open>str(rule.get("if", "")).strip()\<close> and \<^verbatim>\<open>rule.get("text", "")\<close>; the loop over the rules
  of a section; \<^verbatim>\<open>sec.get("rules", [])\<close> and \<^verbatim>\<open>sec.get("heading", default)\<close>; the loop over
  the sections, which keeps a section when it has lines.
\<close>

definition rule_cond :: "tpl_rule \<Rightarrow> string" where
  "rule_cond rule = strip (case rule_if rule of None \<Rightarrow> [] | Some c \<Rightarrow> c)"

definition rule_text_or_empty :: "tpl_rule \<Rightarrow> text_value" where
  "rule_text_or_empty rule = (case rule_text rule of None \<Rightarrow> TStr [] | Some t \<Rightarrow> t)"

fun render_rules ::
  "(string \<Rightarrow> bool) \<Rightarrow> 'g choice_t \<Rightarrow> tpl_rule list \<Rightarrow> string list \<times> 'g \<Rightarrow> string list \<times> 'g" where
  "render_rules fires choice [] (lines, g) = (lines, g)"
| "render_rules fires choice (rule # rest) (lines, g) =
     (let cond = rule_cond rule;
          text = rule_text_or_empty rule
      in if cond = [] \<or> \<not> text_truthy text then render_rules fires choice rest (lines, g)
         else if fires cond then
           (case text of
              TList xs \<Rightarrow>
                (let (selected_text, g') = choice g xs
                 in render_rules fires choice rest (lines @ [''- '' @ selected_text], g'))
            | TStr s \<Rightarrow> render_rules fires choice rest (lines @ [''- '' @ s], g))
         else render_rules fires choice rest (lines, g))"

definition section_rules :: "tpl_section \<Rightarrow> tpl_rule list" where
  "section_rules sec = (case rules sec of None \<Rightarrow> [] | Some rs \<Rightarrow> rs)"

definition section_heading :: "tpl_section \<Rightarrow> string" where
  "section_heading sec = (case heading sec of None \<Rightarrow> default_heading | Some h \<Rightarrow> h)"

fun render_sections ::
  "(string \<Rightarrow> bool) \<Rightarrow> 'g choice_t \<Rightarrow> tpl_section list \<Rightarrow> (string \<times> string list) list \<times> 'g
     \<Rightarrow> (string \<times> string list) list \<times> 'g" where
  "render_sections fires choice [] (parts, g) = (parts, g)"
| "render_sections fires choice (sec # rest) (parts, g) =
     (let h = section_heading sec;
          (lines, g') = render_rules fires choice (section_rules sec) ([], g)
      in if lines \<noteq> [] then render_sections fires choice rest (parts @ [(h, lines)], g')
         else render_sections fires choice rest (parts, g'))"

text \<open>
  The Markdown of one section, \<^verbatim>\<open>"\n---\n\n## {heading}\n" + "\n".join(lines)\<close>, the
  function of the source, and the sections before they are formatted.
\<close>

definition format_part :: "string \<times> string list \<Rightarrow> string" where
  "format_part p = NL @ ''---'' @ NL @ NL @ ''## '' @ fst p @ NL @ join NL (snd p)"

definition render_rule_based_feedback ::
  "(string \<Rightarrow> py_error + ast_mod) \<Rightarrow> arith_t \<Rightarrow> unary_t \<Rightarrow> 'g choice_t
     \<Rightarrow> tpl_section list option \<Rightarrow> (string \<rightharpoonup> pyvalue) \<Rightarrow> 'g \<Rightarrow> string \<times> 'g" where
  "render_rule_based_feedback parse arith unary choice data metrics g =
     (case data of
        None \<Rightarrow> ([], g)
      | Some sections \<Rightarrow>
          (let env = metrics;
               (parts, g') = render_sections (\<lambda>cond. safe_eval_expr parse arith unary cond env)
                               choice sections ([], g)
           in (concat (map format_part parts), g')))"

definition fired_sections ::
  "(string \<Rightarrow> py_error + ast_mod) \<Rightarrow> arith_t \<Rightarrow> unary_t \<Rightarrow> 'g choice_t
     \<Rightarrow> tpl_section list option \<Rightarrow> (string \<rightharpoonup> pyvalue) \<Rightarrow> 'g \<Rightarrow> (string \<times> string list) list" where
  "fired_sections parse arith unary choice data metrics g =
     (case data of
        None \<Rightarrow> []
      | Some sections \<Rightarrow>
          fst (render_sections (\<lambda>cond. safe_eval_expr parse arith unary cond metrics)
                 choice sections ([], g)))"

subsection \<open>Vocabulary of the statements\<close>

text \<open>
  What the specification says of one classified trait: a value on either boundary of the
  ideal range, or between the boundaries, is \<open>good\<close>; a value below the lower boundary has
  the low-side category; a value above the upper boundary has the high-side category.
  The one-sided form has no high-side category.
\<close>

definition two_sided_ok ::
  "string option \<Rightarrow> real \<Rightarrow> real \<times> real \<Rightarrow> string \<Rightarrow> string \<Rightarrow> bool" where
  "two_sided_ok cat v r low high =
     ((v = fst r \<or> v = snd r \<longrightarrow> cat = Some ''good'') \<and>
      (v < fst r \<longrightarrow> cat = Some low) \<and>
      (snd r < v \<longrightarrow> cat = Some high) \<and>
      (fst r \<le> v \<and> v \<le> snd r \<longrightarrow> cat = Some ''good''))"

definition one_sided_ok :: "string option \<Rightarrow> real \<Rightarrow> real \<times> real \<Rightarrow> string \<Rightarrow> bool" where
  "one_sided_ok cat v r low =
     ((v = fst r \<or> v = snd r \<longrightarrow> cat = Some ''good'') \<and>
      (v < fst r \<longrightarrow> cat = Some low) \<and>
      (fst r \<le> v \<longrightarrow> cat = Some ''good''))"

text \<open>
  An entry of an evaluation mapping has a feedback sentence when its trait is in the table
  and its category is one of that trait's; it is good when its category is \<open>good\<close>.
  The ratio of good entries is the score the specification describes.
\<close>

definition has_sentence :: "voice_metrics_t \<Rightarrow> string \<times> string \<Rightarrow> bool" where
  "has_sentence vm p =
     (case map_of vm (fst p) of None \<Rightarrow> False
      | Some info \<Rightarrow> map_of (feedback info) (snd p) \<noteq> None)"

definition is_good :: "string \<times> string \<Rightarrow> bool" where
  "is_good p = (snd p = ''good'')"

definition good_ratio :: "(string \<times> string) list \<Rightarrow> real" where
  "good_ratio evaluation =
     real (length (filter is_good evaluation)) / real (length evaluation)"

text \<open>
  The number of leading samples that lie inside some frame, and the sum of the three band
  ratios.
\<close>

definition covered_len :: "nat \<Rightarrow> nat" where
  "covered_len n = (if n < n_fft then n else n_fft + hop * ((n - n_fft) div hop))"

definition ratio_sum :: "band_energy \<Rightarrow> real" where
  "ratio_sum b = ratio_low b + ratio_mid b + ratio_high b"

text \<open>
  The same computations on real numbers, for buffers of finite samples: the peak, the
  detected range, the root mean square and the normalization.
\<close>

definition real_peak :: "real list \<Rightarrow> real" where
  "real_peak rs = (if rs = [] then 0 else Max ((\<lambda>r. \<bar>r\<bar>) ` set rs))"

definition real_range :: "real list \<Rightarrow> real list" where
  "real_range rs =
     (let p0 = real_peak rs;
          rs1 = (if p0 > 15 / 10 then map (\<lambda>r. r / 32768) rs else rs);
          p1 = (if p0 > 15 / 10 then real_peak rs1 else p0)
      in if p1 > 1 then map (\<lambda>r. r / p1) rs1 else rs1)"

definition real_rms :: "real list \<Rightarrow> real" where
  "real_rms rs = (if rs = [] then 0
                  else sqrt (foldl (+) 0 (map (\<lambda>r. r * r) rs) / real (length rs)))"

fun to_real :: "pyfloat \<Rightarrow> real" where
  "to_real (Fin r) = r"
| "to_real _ = 0"

definition real_normalize :: "real list \<Rightarrow> real \<Rightarrow> real list" where
  "real_normalize rs t =
     (let p = real_peak rs in
      if p < 1 / 10 ^ 6 then rs
      else
        let rs1 = (if p > 1 then map (\<lambda>r. r / p) rs else rs);
            p1 = (if p > 1 then 1 else p);
            scale = t / max p1 (1 / 10 ^ 6)
        in map (\<lambda>r. min (max (r * scale) (- 1)) 1) rs1)"

text \<open>
  A rule fires when its condition and its text are not empty and the condition
  evaluates to true; a line is a line of a rule when it is the rule's text, or an entry
  of the rule's list, after \<open>- \<close>. A section fires when one of its rules does; a part is
  the part of a section when it has the section's heading and one line for each firing
  rule, in order.
\<close>

definition rule_fires :: "(string \<Rightarrow> bool) \<Rightarrow> tpl_rule \<Rightarrow> bool" where
  "rule_fires fires rule =
     (rule_cond rule \<noteq> [] \<and> text_truthy (rule_text_or_empty rule) \<and> fires (rule_cond rule))"

definition line_of_rule :: "tpl_rule \<Rightarrow> string \<Rightarrow> bool" where
  "line_of_rule rule line =
     (case rule_text_or_empty rule of
        TStr s \<Rightarrow> line = ''- '' @ s
      | TList xs \<Rightarrow> list_ex (\<lambda>x. line = ''- '' @ x) xs)"

definition section_fires :: "(string \<Rightarrow> bool) \<Rightarrow> tpl_section \<Rightarrow> bool" where
  "section_fires fires sec = list_ex (rule_fires fires) (section_rules sec)"

definition part_of_section :: "(string \<Rightarrow> bool) \<Rightarrow> tpl_section \<Rightarrow> string \<times> string list \<Rightarrow> bool" where
  "part_of_section fires sec part =
     (fst part = section_heading sec \<and>
      list_all2 line_of_rule (filter (rule_fires fires) (section_rules sec)) (snd part))"

text \<open>
  Instances of the parameters for concrete inputs: an arithmetic in which every operation
  raises \<^verbatim>\<open>TypeError\<close> (for expressions without arithmetic, whose evaluation never calls
  it), a parser given by the table of the strings it accepts with their trees, and a
  choice that takes the first entry.
\<close>

definition no_arith :: arith_t where
  "no_arith op a b = Inl TypeError"

definition no_unary :: unary_t where
  "no_unary op a = Inl TypeError"

definition parse_table :: "(string \<times> ast_mod) list \<Rightarrow> string \<Rightarrow> py_error + ast_mod" where
  "parse_table table s = (case map_of table s of None \<Rightarrow> Inl SyntaxError | Some t \<Rightarrow> Inr t)"

definition first_choice :: "unit choice_t" where
  "first_choice g xs = (hd xs, g)"

text \<open>
  The scenario of the specification: the tree of \<^verbatim>\<open>rms > 0.05\<close> and the template with one
  section and one rule.
\<close>

definition rms_tree :: ast_mod where
  "rms_tree = Expression (Compare (Name ''rms'' Load) [Gt] [Constant (VFloat (Fin (5 / 100)))])"

definition loud_template :: "string \<Rightarrow> tpl_section list option" where
  "loud_template h =
     Some [\<lparr>heading = Some h,
            rules = Some [\<lparr>rule_if = Some ''rms > 0.05'',
                           rule_text = Some (TStr ''loud enough'')\<rparr>]\<rparr>]"

text \<open>The normalization in exact arithmetic.\<close>

definition normalize_exact :: "pyfloat list \<Rightarrow> real \<Rightarrow> py_error + pyfloat list" where
  "normalize_exact x t = normalize_for_saving (\<lambda>r. r) (\<lambda>r. r) x t"

section \<open>Properties\<close>

lemmas K_defs = K_speed_def K_intonation_def K_loudness_def K_clarity_def K_pause_def

lemma bind_err_Inr [simp]: "bind_err (Inr v) f = f v"
  by (simp add: bind_err_def)

lemma bind_err_Inl [simp]: "bind_err (Inl e) f = Inl e"
  by (simp add: bind_err_def)

lemma getitem_Some: "map_of d k = Some v \<Longrightarrow> getitem d k = Inr v"
  by (simp add: getitem_def)

lemma feedback_line_total:
  "has_sentence vm (m, c) \<Longrightarrow> \<exists>line. feedback_line vm m c = Inr line"
  by (auto simp: has_sentence_def feedback_line_def getitem_def split: option.splits)

lemma collect_points_total:
  "list_all (has_sentence vm) ev \<Longrightarrow>
   \<exists>g b. collect_points vm ev acc = Inr (g, b)"
proof (induction ev arbitrary: acc)
  case Nil
  then show ?case by (cases acc) simp
next
  case (Cons p ev)
  obtain m c where p: "p = (m, c)" by (cases p)
  obtain g0 b0 where acc: "acc = (g0, b0)" by (cases acc)
  from Cons.prems p have "has_sentence vm (m, c)" by simp
  then obtain line where l: "feedback_line vm m c = Inr line"
    using feedback_line_total by blast
  from Cons.prems have "list_all (has_sentence vm) ev" by simp
  then show ?case using Cons.IH p acc l by simp
qed

lemma collect_points_lists:
  "collect_points vm ev (g0, b0) = Inr (g, b) \<Longrightarrow>
   map Inr g = map Inr g0 @ map (\<lambda>(m, c). feedback_line vm m c) (filter is_good ev) \<and>
   map Inr b = map Inr b0 @ map (\<lambda>(m, c). feedback_line vm m c) (filter (\<lambda>p. \<not> is_good p) ev)"
proof (induction ev arbitrary: g0 b0)
  case Nil
  then show ?case by simp
next
  case (Cons p ev)
  obtain m c where p: "p = (m, c)" by (cases p)
  show ?case
  proof (cases "feedback_line vm m c")
    case (Inl e)
    with Cons.prems p show ?thesis by simp
  next
    case (Inr line)
    show ?thesis
    proof (cases "c = ''good''")
      case True
      with Cons.prems p Inr have "collect_points vm ev (g0 @ [line], b0) = Inr (g, b)" by simp
      from Cons.IH[OF this] show ?thesis using p Inr True by (simp add: is_good_def)
    next
      case False
      with Cons.prems p Inr have "collect_points vm ev (g0, b0 @ [line]) = Inr (g, b)" by simp
      from Cons.IH[OF this] show ?thesis using p Inr False by (simp add: is_good_def)
    qed
  qed
qed

lemma collect_points_lengths:
  assumes "collect_points vm ev ([], []) = Inr (g, b)"
  shows "length g = length (filter is_good ev)"
    and "length b = length (filter (\<lambda>p. \<not> is_good p) ev)"
proof -
  from collect_points_lists[OF assms]
  have g: "map Inr g = map (\<lambda>(m, c). feedback_line vm m c) (filter is_good ev)"
    and b: "map Inr b = map (\<lambda>(m, c). feedback_line vm m c) (filter (\<lambda>p. \<not> is_good p) ev)"
    by simp_all
  from arg_cong[OF g, of length] show "length g = length (filter is_good ev)" by simp
  from arg_cong[OF b, of length] show "length b = length (filter (\<lambda>p. \<not> is_good p) ev)" by simp
qed

lemma filter_split_length:
  "length (filter P xs) + length (filter (\<lambda>x. \<not> P x) xs) = length xs"
  by (induction xs) auto

lemma range_of_voice_metrics:
  "range_of voice_metrics K_speed = Inr (120, 150)"
  "range_of voice_metrics K_intonation = Inr (5 / 10, 15 / 10)"
  "range_of voice_metrics K_loudness = Inr (60, 75)"
  "range_of voice_metrics K_clarity = Inr (7 / 10, 1)"
  "range_of voice_metrics K_pause = Inr (5 / 10, 2)"
  by (simp_all add: range_of_def getitem_def voice_metrics_def K_defs)

subsection \<open>Feature evaluator\<close>

text \<open>
  Claim C7. With the configured ideal ranges, and a feature mapping that has the five
  traits, the evaluator returns an evaluation in which every trait is classified
  boundary-inclusively: a value equal to \<open>lo\<close> or \<open>hi\<close> (or between them) is \<open>good\<close>, a
  value strictly below \<open>lo\<close> has the trait's low-side category, a value strictly above
  \<open>hi\<close> has the trait's high-side category; clarity is one-sided, every value from \<open>lo\<close>
  upwards being \<open>good\<close>.
\<close>

theorem evaluate_boundary_inclusive:
  assumes "map_of features K_speed = Some s"
    and "map_of features K_intonation = Some i"
    and "map_of features K_loudness = Some l"
    and "map_of features K_clarity = Some c"
    and "map_of features K_pause = Some p"
  shows "\<exists>ev. evaluate_speech_features voice_metrics features = Inr ev \<and>
           two_sided_ok (map_of ev K_speed) s (120, 150) ''too_slow'' ''too_fast'' \<and>
           two_sided_ok (map_of ev K_intonation) i (5 / 10, 15 / 10) ''too_flat'' ''too_varied'' \<and>
           two_sided_ok (map_of ev K_loudness) l (60, 75) ''too_quiet'' ''too_loud'' \<and>
           one_sided_ok (map_of ev K_clarity) c (7 / 10, 1) ''unclear'' \<and>
           two_sided_ok (map_of ev K_pause) p (5 / 10, 2) ''too_few'' ''too_many''"
proof -
  let ?ev = "[(K_speed, classify_two_sided ''too_slow'' ''too_fast'' s (120, 150)),
              (K_intonation, classify_two_sided ''too_flat'' ''too_varied'' i (5 / 10, 15 / 10)),
              (K_loudness, classify_two_sided ''too_quiet'' ''too_loud'' l (60, 75)),
              (K_clarity, classify_one_sided ''unclear'' c (7 / 10, 1)),
              (K_pause, classify_two_sided ''too_few'' ''too_many'' p (5 / 10, 2))]"
  have ev: "evaluate_speech_features voice_metrics features = Inr ?ev"
    using assms
    by (simp add: evaluate_speech_features_def getitem_Some range_of_voice_metrics)
  have 1: "two_sided_ok (map_of ?ev K_speed) s (120, 150) ''too_slow'' ''too_fast''"
    by (simp add: two_sided_ok_def classify_two_sided_def K_defs)
  have 2: "two_sided_ok (map_of ?ev K_intonation) i (5 / 10, 15 / 10) ''too_flat'' ''too_varied''"
    by (simp add: two_sided_ok_def classify_two_sided_def K_defs)
  have 3: "two_sided_ok (map_of ?ev K_loudness) l (60, 75) ''too_quiet'' ''too_loud''"
    by (simp add: two_sided_ok_def classify_two_sided_def K_defs)
  have 4: "one_sided_ok (map_of ?ev K_clarity) c (7 / 10, 1) ''unclear''"
    by (simp add: one_sided_ok_def classify_one_sided_def K_defs)
  have 5: "two_sided_ok (map_of ?ev K_pause) p (5 / 10, 2) ''too_few'' ''too_many''"
    by (simp add: two_sided_ok_def classify_two_sided_def K_defs)
  from ev 1 2 3 4 5 show ?thesis by blast
qed

text \<open>The theorem at a feature mapping with two boundary values and a value above the
  upper boundary of the one-sided trait.\<close>

theorem evaluate_boundary_inclusive_witness:
  "evaluate_speech_features voice_metrics
     [(K_speed, 120), (K_intonation, 15 / 10), (K_loudness, 59), (K_clarity, 2), (K_pause, 3)]
   = Inr [(K_speed, ''good''), (K_intonation, ''good''), (K_loudness, ''too_quiet''),
          (K_clarity, ''good''), (K_pause, ''too_many'')]"
  using evaluate_boundary_inclusive
    [of "[(K_speed, 120), (K_intonation, 15 / 10), (K_loudness, 59), (K_clarity, 2), (K_pause, 3)]"
        120 "15 / 10" 59 2 3]
  by (simp add: K_defs evaluate_speech_features_def getitem_def range_of_def voice_metrics_def
        classify_two_sided_def classify_one_sided_def)

subsection \<open>Feedback composer\<close>

lemma generate_feedback_eq:
  assumes "collect_points vm evaluation ([], []) = Inr (g, b)" and "evaluation \<noteq> []"
  shows "generate_feedback vm evaluation =
           Inr \<lparr>strengths = g, improvements = b,
                overall = tier_of (real (length g) / real (length evaluation)),
                advice = advice_of evaluation\<rparr>"
  using assms by (simp add: generate_feedback_def true_div_def advice_of_def)

lemma score_of_eq:
  assumes "collect_points vm evaluation ([], []) = Inr (g, b)" and "evaluation \<noteq> []"
  shows "score_of vm evaluation = Inr (real (length g) / real (length evaluation))"
  using assms by (simp add: score_of_def true_div_def)

lemma tier_of_cases:
  "(8 / 10 \<le> r \<longrightarrow> tier_of r = ''tier1'') \<and>
   (6 / 10 \<le> r \<and> r < 8 / 10 \<longrightarrow> tier_of r = ''tier2'') \<and>
   (4 / 10 \<le> r \<and> r < 6 / 10 \<longrightarrow> tier_of r = ''tier3'') \<and>
   (r < 4 / 10 \<longrightarrow> tier_of r = ''tier4'')"
  by (simp add: tier_of_def)

text \<open>
  Claim C9. For a non-empty evaluation whose entries have feedback sentences, the composer
  returns; its score is the number of good entries divided by the number of entries, and
  the overall assessment is the tier of that score: the best tier from 0.8, the second
  from 0.6 to below 0.8, the third from 0.4 to below 0.6, the worst below 0.4.
\<close>

theorem overall_tier_thresholds:
  assumes "evaluation \<noteq> []" and "list_all (has_sentence vm) evaluation"
  shows "\<exists>fb. generate_feedback vm evaluation = Inr fb \<and>
           score_of vm evaluation = Inr (good_ratio evaluation) \<and>
           (8 / 10 \<le> good_ratio evaluation \<longrightarrow> overall fb = ''tier1'') \<and>
           (6 / 10 \<le> good_ratio evaluation \<and> good_ratio evaluation < 8 / 10
              \<longrightarrow> overall fb = ''tier2'') \<and>
           (4 / 10 \<le> good_ratio evaluation \<and> good_ratio evaluation < 6 / 10
              \<longrightarrow> overall fb = ''tier3'') \<and>
           (good_ratio evaluation < 4 / 10 \<longrightarrow> overall fb = ''tier4'')"
proof -
  from collect_points_total[OF assms(2)] obtain g b
    where cp: "collect_points vm evaluation ([], []) = Inr (g, b)" by blast
  from collect_points_lengths(1)[OF cp]
  have r: "real (length g) / real (length evaluation) = good_ratio evaluation"
    by (simp add: good_ratio_def)
  let ?fb = "\<lparr>strengths = g, improvements = b,
                overall = tier_of (good_ratio evaluation),
                advice = advice_of evaluation\<rparr>"
  have gf: "generate_feedback vm evaluation = Inr ?fb"
    using generate_feedback_eq[OF cp assms(1)] r by simp
  have sc: "score_of vm evaluation = Inr (good_ratio evaluation)"
    using score_of_eq[OF cp assms(1)] r by simp
  have ov: "overall ?fb = tier_of (good_ratio evaluation)" by simp
  show ?thesis
    apply (rule exI[of _ ?fb])
    unfolding ov
    using gf sc tier_of_cases[of "good_ratio evaluation"] by blast
qed

text \<open>
  Claim C10, amended. For a non-empty evaluation whose entries have feedback sentences, the
  composer returns; the strengths are the lines of the good entries and the improvements
  the lines of the other entries, in the order of the mapping, so the two lengths sum to
  the number of entries, and the score is the number of strengths divided by the number of
  entries.
\<close>

theorem strengths_improvements_partition:
  assumes "evaluation \<noteq> []" and "list_all (has_sentence vm) evaluation"
  shows "\<exists>fb. generate_feedback vm evaluation = Inr fb \<and>
           map Inr (strengths fb)
             = map (\<lambda>(m, c). feedback_line vm m c) (filter is_good evaluation) \<and>
           map Inr (improvements fb)
             = map (\<lambda>(m, c). feedback_line vm m c) (filter (\<lambda>p. \<not> is_good p) evaluation) \<and>
           length (strengths fb) + length (improvements fb) = length evaluation \<and>
           score_of vm evaluation
             = Inr (real (length (strengths fb)) / real (length evaluation))"
proof -
  from collect_points_total[OF assms(2)] obtain g b
    where cp: "collect_points vm evaluation ([], []) = Inr (g, b)" by blast
  let ?fb = "\<lparr>strengths = g, improvements = b,
                overall = tier_of (real (length g) / real (length evaluation)),
                advice = advice_of evaluation\<rparr>"
  have gf: "generate_feedback vm evaluation = Inr ?fb"
    by (rule generate_feedback_eq[OF cp assms(1)])
  have sc: "score_of vm evaluation = Inr (real (length g) / real (length evaluation))"
    by (rule score_of_eq[OF cp assms(1)])
  from collect_points_lists[OF cp]
  have l: "map Inr g = map (\<lambda>(m, c). feedback_line vm m c) (filter is_good evaluation)"
          "map Inr b = map (\<lambda>(m, c). feedback_line vm m c) (filter (\<lambda>p. \<not> is_good p) evaluation)"
    by simp_all
  from collect_points_lengths[OF cp] filter_split_length[of is_good evaluation]
  have n: "length g + length b = length evaluation" by simp
  have sel: "strengths ?fb = g" "improvements ?fb = b" by simp_all
  show ?thesis
    apply (rule exI[of _ ?fb])
    unfolding sel
    using gf l n sc by blast
qed

text \<open>
  Claim C10 as stated speaks of every evaluation mapping. On the empty mapping the loop
  adds nothing and the division \<^verbatim>\<open>good_points / total_points\<close> is \<^verbatim>\<open>0 / 0\<close>: the composer
  raises \<^verbatim>\<open>ZeroDivisionError\<close> and returns no lists and no score.
\<close>

theorem generate_feedback_empty_raises:
  "generate_feedback voice_metrics [] = Inl ZeroDivisionError"
  by (simp add: generate_feedback_def true_div_def)

text \<open>Claim C9 at an evaluation with three good entries of five (score 0.6).\<close>

theorem overall_tier_thresholds_witness:
  "generate_feedback voice_metrics
     [(K_speed, ''good''), (K_intonation, ''too_flat''), (K_loudness, ''good''),
      (K_clarity, ''good''), (K_pause, ''too_many'')]
   = Inr \<lparr>strengths = [K_speed @ '': speed/good'', K_loudness @ '': loudness/good'',
                       K_clarity @ '': clarity/good''],
          improvements = [K_intonation @ '': intonation/too_flat'',
                          K_pause @ '': pause/too_many''],
          overall = ''tier2'',
          advice = [''advice/intonation'', ''advice/pause'', ''advice/keep_practising'']\<rparr>"
  using overall_tier_thresholds
    [of "[(K_speed, ''good''), (K_intonation, ''too_flat''), (K_loudness, ''good''),
      (K_clarity, ''good''), (K_pause, ''too_many'')]" voice_metrics]
  by (simp add: has_sentence_def voice_metrics_def K_defs generate_feedback_def
        feedback_line_def getitem_def true_div_def tier_of_def advice_for_def advice_of_def)

text \<open>The amended claim C10 at an evaluation with one good entry of two.\<close>

theorem strengths_improvements_partition_witness:
  "\<exists>fb. generate_feedback voice_metrics [(K_clarity, ''unclear''), (K_pause, ''good'')] = Inr fb \<and>
     strengths fb = [K_pause @ '': pause/good''] \<and>
     improvements fb = [K_clarity @ '': clarity/unclear''] \<and>
     score_of voice_metrics [(K_clarity, ''unclear''), (K_pause, ''good'')] = Inr (1 / 2)"
  using strengths_improvements_partition
    [of "[(K_clarity, ''unclear''), (K_pause, ''good'')]" voice_metrics]
  by (simp add: has_sentence_def voice_metrics_def K_defs generate_feedback_def score_of_def
        feedback_line_def getitem_def true_div_def tier_of_def advice_for_def advice_of_def)

subsection \<open>Spectral analyzer\<close>

lemma n_frames_of_pos: "1 \<le> n_frames_of n"
  by (simp add: n_frames_of_def)

lemma n_frames_short: 
  assumes "n < n_fft" 
  shows "n_frames_of n = 1"
proof -
  from assms have "int n - int n_fft < 0" by simp
  moreover have "(0::int) < int hop" by (simp add: hop_def)
  ultimately have "(int n - int n_fft) div int hop < 0"
    by (simp add: pos_imp_zdiv_neg_iff)
  then show ?thesis by (simp add: n_frames_of_def)
qed

lemma n_frames_long: 
  assumes "n_fft \<le> n"
  shows "nat (n_frames_of n) = Suc ((n - n_fft) div hop)"
proof -
  from assms have "int n - int n_fft = int (n - n_fft)" by simp
  then have "(int n - int n_fft) div int hop = int ((n - n_fft) div hop)"
    by (simp only: zdiv_int)
  then have "n_frames_of n = 1 + int ((n - n_fft) div hop)"
    by (simp add: n_frames_of_def)
  then show ?thesis by simp
qed

lemma stft_frames_eq: "stft_frames x = map (frame_at x) [0..<nat (n_frames_of (length x))]"
proof -
  have "\<not> n_frames_of (length x) \<le> 0" using n_frames_of_pos[of "length x"] by simp
  then show ?thesis by (simp add: stft_frames_def Let_def)
qed

lemma length_frame_at: "length (frame_at x i) = n_fft"
  by (simp add: frame_at_def Let_def pad_right_def)

lemma frame_at_full:
  assumes "i * hop + n_fft \<le> length x"
  shows "frame_at x i = take n_fft (drop (i * hop) x)"
  using assms by (simp add: frame_at_def Let_def)

lemma frame_at_short:
  assumes "length x < n_fft"
  shows "frame_at x 0 = pad_right x (n_fft - length x)"
  using assms by (simp add: frame_at_def Let_def)

lemma stft_frames_short:
  assumes "length x < n_fft"
  shows "stft_frames x = [pad_right x (n_fft - length x)]"
proof -
  have "stft_frames x = map (frame_at x) [0..<1]"
    by (simp only: stft_frames_eq n_frames_short[OF assms] nat_1)
       (simp only: One_nat_def)
  then show ?thesis by (simp add: frame_at_short[OF assms])
qed

lemma stft_frames_long:
  assumes "n_fft \<le> length x"
  shows "stft_frames x
           = map (\<lambda>i. take n_fft (drop (i * hop) x)) [0..<Suc ((length x - n_fft) div hop)]"
proof -
  define N where "N = Suc ((length x - n_fft) div hop)"
  have fr: "frame_at x i = take n_fft (drop (i * hop) x)" if "i < N" for i
  proof -
    from that have "i \<le> (length x - n_fft) div hop" by (simp add: N_def)
    then have "i * hop \<le> (length x - n_fft) div hop * hop" by simp
    also have "\<dots> \<le> length x - n_fft" by simp
    finally have "i * hop + n_fft \<le> length x" using assms by simp
    then show ?thesis by (rule frame_at_full)
  qed
  have "nat (n_frames_of (length x)) = N"
    using n_frames_long[OF assms] by (simp add: N_def)
  then have "stft_frames x = map (frame_at x) [0..<N]"
    by (simp only: stft_frames_eq)
  also have "\<dots> = map (\<lambda>i. take n_fft (drop (i * hop) x)) [0..<N]"
    by (rule map_cong[OF refl]) (simp add: fr)
  finally show ?thesis by (simp only: N_def)
qed

lemma length_stft_frames:
  "length (stft_frames x) = nat (n_frames_of (length x))"
  by (simp only: stft_frames_eq length_map length_upt diff_zero)

lemma nth_stft_frames:
  "i < nat (n_frames_of (length x)) \<Longrightarrow> stft_frames x ! i = frame_at x i"
  by (simp only: stft_frames_eq nth_map_upt add_0 diff_zero)

lemma frame_at_nth:
  assumes "i * hop \<le> j" and "j < i * hop + n_fft" and "j < length x"
  shows "frame_at x i ! (j - i * hop) = x ! j"
proof -
  define s where "s = i * hop"
  let ?fr = "take n_fft (drop s x)"
  from assms have a: "s \<le> j" "j < s + n_fft" "j < length x" by (simp_all add: s_def)
  then have k: "j - s < length ?fr" by auto
  have "frame_at x i ! (j - s) = ?fr ! (j - s)"
    using k by (simp add: frame_at_def Let_def pad_right_def nth_append s_def)
  also have "\<dots> = x ! j" using a by simp
  finally show ?thesis by (simp only: s_def)
qed

lemma cap_seconds_take:
  "cap_seconds x sr = take (nat (sr * max_seconds)) x"
proof (cases "int (length x) > sr * max_seconds")
  case True
  then show ?thesis by (simp add: cap_seconds_def)
next
  case False
  then have "length x \<le> nat (sr * max_seconds)" by linarith
  then show ?thesis using False by (simp add: cap_seconds_def)
qed

lemma covered_some_frame:
  assumes "j < covered_len (length x)"
  shows "\<exists>i<length (stft_frames x).
           i * hop \<le> j \<and> j < i * hop + n_fft \<and> stft_frames x ! i ! (j - i * hop) = x ! j"
proof (cases "length x < n_fft")
  case True
  with assms have j: "j < length x" by (simp add: covered_len_def)
  have n: "nat (n_frames_of (length x)) = 1" by (simp add: n_frames_short[OF True])
  have "0 < length (stft_frames x)" by (simp add: length_stft_frames n)
  moreover have "stft_frames x ! 0 ! (j - 0 * hop) = x ! j"
    using frame_at_nth[of 0 j x] j True nth_stft_frames[of 0 x] n by simp
  moreover have "0 * hop \<le> j \<and> j < 0 * hop + n_fft" using j True by simp
  ultimately show ?thesis by blast
next
  case False
  then have long: "n_fft \<le> length x" by simp
  define q where "q = (length x - n_fft) div hop"
  from assms False have jq: "j < n_fft + hop * q" by (simp add: covered_len_def q_def)
  have "hop * q \<le> length x - n_fft" by (simp add: q_def)
  with long have cl: "n_fft + hop * q \<le> length x" by simp
  with jq have jl: "j < length x" by simp
  have nf: "nat (n_frames_of (length x)) = Suc q" by (simp add: n_frames_long[OF long] q_def)
  define i where "i = min q (j div hop)"
  have i_lt: "i < length (stft_frames x)" by (simp add: length_stft_frames nf i_def)
  have "i * hop \<le> (j div hop) * hop" by (simp add: i_def)
  also have "\<dots> \<le> j" by simp
  finally have lo: "i * hop \<le> j" .
  have hop_le: "hop \<le> n_fft" by (simp add: hop_def n_fft_def)
  have hop_pos: "0 < hop" by (simp add: hop_def)
  have hi: "j < i * hop + n_fft"
  proof (cases "j div hop \<le> q")
    case True
    then have "i = j div hop" by (simp add: i_def)
    moreover have "j < (j div hop) * hop + hop"
      using hop_pos by (metis add.commute mod_less_divisor mult.commute mult_div_mod_eq nat_add_left_cancel_less)
    ultimately show ?thesis using hop_le by simp
  next
    case False
    then have "i = q" by (simp add: i_def)
    with jq show ?thesis by (simp add: mult.commute add.commute)
  qed
  have "stft_frames x ! i = frame_at x i"
    using i_lt by (simp add: nth_stft_frames length_stft_frames)
  then have "stft_frames x ! i ! (j - i * hop) = x ! j"
    using frame_at_nth[OF lo hi jl] by simp
  with i_lt lo hi show ?thesis by blast
qed

lemma uncovered_no_frame:
  assumes "n_fft \<le> length x" and "covered_len (length x) \<le> j"
    and "i < length (stft_frames x)"
  shows "\<not> (i * hop \<le> j \<and> j < i * hop + n_fft)"
proof -
  define q where "q = (length x - n_fft) div hop"
  from assms(1,2) have jq: "n_fft + hop * q \<le> j" by (simp add: covered_len_def q_def)
  have "nat (n_frames_of (length x)) = Suc q" by (simp add: n_frames_long[OF assms(1)] q_def)
  with assms(3) have "i \<le> q" by (simp add: length_stft_frames)
  then have "hop * i \<le> hop * q" by (rule mult_le_mono2)
  with jq have "hop * i + n_fft \<le> j" by linarith
  then show ?thesis by (simp add: mult.commute)
qed

text \<open>
  Claim C3, amended. The analysis uses a window of 1024 samples and a hop of 512 on the
  first 10 seconds of the signal. Every frame has 1024 samples. A signal shorter than the
  window gives one frame, the signal followed by zeros; a longer signal gives the
  \<open>1 + (n - 1024) div 512\<close> full windows and no padded frame. Every sample before
  \<open>covered_len n\<close> is in some frame; from \<open>covered_len n\<close> on (the last
  \<open>(n - 1024) mod 512\<close> samples of a signal of at least 1024 samples) no frame reaches it.
\<close>

theorem stft_frames_coverage:
  fixes x :: "'a::zero list"
  shows "cap_seconds x sr = take (nat (sr * max_seconds)) x \<and>
         n_fft = 1024 \<and> hop = 512 \<and> max_seconds = 10 \<and>
         (\<forall>i<length (stft_frames x). length (stft_frames x ! i) = n_fft) \<and>
         (length x < n_fft \<longrightarrow> stft_frames x = [x @ replicate (n_fft - length x) 0]) \<and>
         (n_fft \<le> length x \<longrightarrow>
            stft_frames x
              = map (\<lambda>i. take n_fft (drop (i * hop) x)) [0..<Suc ((length x - n_fft) div hop)]) \<and>
         (\<forall>j<covered_len (length x). \<exists>i<length (stft_frames x).
            i * hop \<le> j \<and> j < i * hop + n_fft \<and> stft_frames x ! i ! (j - i * hop) = x ! j) \<and>
         (n_fft \<le> length x \<longrightarrow>
            (\<forall>j\<ge>covered_len (length x). \<forall>i<length (stft_frames x).
               \<not> (i * hop \<le> j \<and> j < i * hop + n_fft)))"
proof -
  have 1: "\<forall>i<length (stft_frames x). length (stft_frames x ! i) = n_fft"
    by (simp add: length_stft_frames nth_stft_frames length_frame_at)
  have 2: "length x < n_fft \<longrightarrow> stft_frames x = [x @ replicate (n_fft - length x) 0]"
    using stft_frames_short[of x] by (simp add: pad_right_def)
  have 3: "n_fft \<le> length x \<longrightarrow>
            stft_frames x
              = map (\<lambda>i. take n_fft (drop (i * hop) x)) [0..<Suc ((length x - n_fft) div hop)]"
    using stft_frames_long[of x] by blast
  have 4: "\<forall>j<covered_len (length x). \<exists>i<length (stft_frames x).
            i * hop \<le> j \<and> j < i * hop + n_fft \<and> stft_frames x ! i ! (j - i * hop) = x ! j"
    using covered_some_frame[of _ x] by blast
  have 5: "n_fft \<le> length x \<longrightarrow>
            (\<forall>j\<ge>covered_len (length x). \<forall>i<length (stft_frames x).
               \<not> (i * hop \<le> j \<and> j < i * hop + n_fft))"
    using uncovered_no_frame[of x] by blast
  have 0: "n_fft = 1024 \<and> hop = 512 \<and> max_seconds = 10"
    by (simp add: n_fft_def hop_def max_seconds_def)
  from cap_seconds_take[of x sr] 0 1 2 3 4 5 show ?thesis by blast
qed

text \<open>
  Claim C3 as stated fails for a signal of 1025 samples: \<^verbatim>\<open>n_frames\<close> is
  \<^verbatim>\<open>1 + max(0, 1 // 512) = 1\<close>, the only frame is \<^verbatim>\<open>x[0:1024]\<close>, and the last sample, the
  only non-zero one, is in no frame.
\<close>

theorem stft_frames_drops_tail:
  "stft_frames (replicate 1024 0 @ [1::real]) = [replicate 1024 0]"
proof -
  have l: "n_fft \<le> length (replicate 1024 0 @ [1::real])" by (simp add: n_fft_def)
  show ?thesis
    unfolding stft_frames_long[OF l] by (simp add: n_fft_def hop_def)
qed

text \<open>The amended claim C3 at a signal of one sample and at a signal of 1536 samples.\<close>

theorem stft_frames_coverage_witness:
  "stft_frames [1::real] = [[1] @ replicate 1023 0] \<and>
   stft_frames (replicate 1536 (0::real)) = [replicate 1024 0, replicate 1024 0] \<and>
   covered_len 1536 = 1536 \<and> covered_len 1537 = 1536"
proof -
  have u: "[0..<Suc ((1536 - 1024) div 512)] = [0, Suc 0]" by (simp add: upt_conv_Cons)
  have a: "stft_frames [1::real] = [[1] @ replicate 1023 0]"
    using stft_frames_coverage[of "[1::real]" 16000] by (simp add: n_fft_def)
  have b: "stft_frames (replicate 1536 (0::real)) = [replicate 1024 0, replicate 1024 0]"
    using stft_frames_coverage[of "replicate 1536 (0::real)" 16000]
    by (simp add: n_fft_def hop_def u)
  have c: "covered_len 1536 = 1536 \<and> covered_len 1537 = 1536"
    by (simp add: covered_len_def n_fft_def hop_def)
  from a b c show ?thesis by blast
qed

lemma length_hanning: "length (hanning M) = M"
  by (simp add: hanning_def)

lemma length_rfft: "length (rfft a) = length a div 2 + 1"
  by (simp add: rfft_def)

lemma length_rfftfreq: "length (rfftfreq n d) = n div 2 + 1"
  by (simp add: rfftfreq_def)

lemma row_partition:
  assumes "length row \<le> length freqs"
  shows "sum_list (map fst (filter (\<lambda>(m, f). f < (300::real)) (zip row freqs)))
         + sum_list (map fst (filter (\<lambda>(m, f). f \<ge> 300 \<and> f < 3000) (zip row freqs)))
         + sum_list (map fst (filter (\<lambda>(m, f). f \<ge> 3000) (zip row freqs)))
         = sum_list (row :: real list)"
  using assms
proof (induction row arbitrary: freqs)
  case Nil
  then show ?case by simp
next
  case (Cons m row)
  then obtain f fs where fr: "freqs = f # fs" by (cases freqs) auto
  with Cons.prems have "length row \<le> length fs" by simp
  from Cons.IH[OF this] show ?case unfolding fr by auto
qed

lemma band_partition:
  assumes "\<forall>row\<in>set spec. length row \<le> length freqs"
  shows "band_sum (\<lambda>f. f < 300) freqs spec
         + band_sum (\<lambda>f. f \<ge> 300 \<and> f < 3000) freqs spec
         + band_sum (\<lambda>f. f \<ge> 3000) freqs spec
         = total_mag spec"
  using assms
proof (induction spec)
  case Nil
  then show ?case by (simp add: band_sum_def total_mag_def)
next
  case (Cons row spec)
  then have r: "length row \<le> length freqs" and rest: "\<forall>row\<in>set spec. length row \<le> length freqs"
    by simp_all
  from Cons.IH[OF rest] row_partition[OF r] show ?case
    by (simp add: band_sum_def total_mag_def)
qed

lemma spec_mag_rows:
  "\<forall>row\<in>set (spec_mag x). length row = n_fft div 2 + 1"
proof
  fix row assume "row \<in> set (spec_mag x)"
  then obtain frame where f: "frame \<in> set (stft_frames x)"
    and row: "row = map cmod (rfft (map2 (*) frame (hanning n_fft)))"
    by (auto simp: spec_mag_def)
  from f have "length frame = n_fft"
    by (auto simp: stft_frames_eq length_frame_at)
  then show "length row = n_fft div 2 + 1"
    by (simp add: row length_rfft length_hanning)
qed

lemma total_mag_nonneg: "0 \<le> total_mag (spec_mag x)"
proof -
  have "0 \<le> sum_list row" if "row \<in> set (spec_mag x)" for row
  proof -
    from that have "\<forall>m\<in>set row. 0 \<le> m" by (auto simp: spec_mag_def)
    then show ?thesis by (simp add: sum_list_nonneg)
  qed
  then show ?thesis unfolding total_mag_def by (intro sum_list_nonneg) auto
qed

lemma ratio_sum_eq:
  assumes "x \<noteq> []" and "0 < sr"
  shows "ratio_sum (analyze_spectrum_for_comment x sr)
         = total_mag (spec_mag (cap_seconds x sr))
           / (total_mag (spec_mag (cap_seconds x sr)) + 1 / 10 ^ 12)"
proof -
  let ?spec = "spec_mag (cap_seconds x sr)"
  let ?freqs = "rfftfreq n_fft (1 / real_of_int sr)"
  have "\<forall>row\<in>set ?spec. length row \<le> length ?freqs"
    using spec_mag_rows[of "cap_seconds x sr"] by (simp add: length_rfftfreq)
  from band_partition[OF this]
  have p: "band_sum (\<lambda>f. f < 300) ?freqs ?spec
         + band_sum (\<lambda>f. f \<ge> 300 \<and> f < 3000) ?freqs ?spec
         + band_sum (\<lambda>f. f \<ge> 3000) ?freqs ?spec = total_mag ?spec" .
  have "ratio_sum (analyze_spectrum_for_comment x sr)
        = (band_sum (\<lambda>f. f < 300) ?freqs ?spec
         + band_sum (\<lambda>f. f \<ge> 300 \<and> f < 3000) ?freqs ?spec
         + band_sum (\<lambda>f. f \<ge> 3000) ?freqs ?spec) / (total_mag ?spec + 1 / 10 ^ 12)"
    using assms
    by (simp add: ratio_sum_def analyze_spectrum_for_comment_def Let_def add_divide_distrib)
  then show ?thesis by (simp only: p)
qed

lemma quotient_close_to_one:
  fixes S :: real
  assumes "0 \<le> S"
  shows "\<bar>S / (S + 1 / 10 ^ 12) - 1\<bar> \<le> 1 / 10 ^ 3 \<longleftrightarrow> 999 / 10 ^ 12 \<le> S"
proof -
  define e :: real where "e = 1 / 10 ^ 12"
  have e: "0 < e" by (simp add: e_def)
  with assms have pos: "0 < S + e" by simp
  have "S / (S + e) - 1 = - (e / (S + e))"
    using pos by (simp add: field_simps)
  moreover have nn: "0 \<le> e / (S + e)" using e pos by simp
  moreover have "\<bar>- (e / (S + e))\<bar> = e / (S + e)"
    using nn by (simp only: abs_minus_cancel abs_of_nonneg)
  ultimately have "\<bar>S / (S + e) - 1\<bar> = e / (S + e)" by (simp only:)
  moreover have "e / (S + e) \<le> 1 / 10 ^ 3 \<longleftrightarrow> 999 * e \<le> S"
    using pos by (simp add: field_simps)
  ultimately show ?thesis by (simp add: e_def)
qed

text \<open>
  Claim C4, amended. For a non-empty signal and a positive sample rate the three bands
  partition the bins, so in exact arithmetic the three ratios sum to \<open>S / (S + 1e-12)\<close>,
  where \<open>S \<ge> 0\<close> is the summed magnitude of the spectrogram. The sum is below 1, and it is
  within \<open>1e-3\<close> of 1 exactly when \<open>S\<close> is at least \<open>9.99e-10\<close>.
\<close>

theorem band_ratios_sum:
  assumes "x \<noteq> []" and "0 < sr"
  shows "ratio_sum (analyze_spectrum_for_comment x sr)
           = total_mag (spec_mag (cap_seconds x sr))
             / (total_mag (spec_mag (cap_seconds x sr)) + 1 / 10 ^ 12) \<and>
         0 \<le> total_mag (spec_mag (cap_seconds x sr)) \<and>
         ratio_sum (analyze_spectrum_for_comment x sr) < 1 \<and>
         (\<bar>ratio_sum (analyze_spectrum_for_comment x sr) - 1\<bar> \<le> 1 / 10 ^ 3
            \<longleftrightarrow> 999 / 10 ^ 12 \<le> total_mag (spec_mag (cap_seconds x sr)))"
proof -
  let ?S = "total_mag (spec_mag (cap_seconds x sr))"
  have S: "0 \<le> ?S" by (rule total_mag_nonneg)
  have eq: "ratio_sum (analyze_spectrum_for_comment x sr) = ?S / (?S + 1 / 10 ^ 12)"
    by (rule ratio_sum_eq[OF assms])
  have lt: "?S / (?S + 1 / 10 ^ 12) < 1" using S by (simp add: field_simps)
  from eq S lt quotient_close_to_one[OF S] show ?thesis by simp
qed

lemma windowed_unit_impulse:
  "map2 (*) ([1] @ replicate 1023 0) (hanning 1024) = replicate 1024 (0::real)"
proof -
  have u: "[0..<1024] = 0 # [Suc 0..<1024]" by (rule upt_conv_Cons) simp
  have "hanning 1024 = map (\<lambda>n. 1 / 2 - 1 / 2 * cos (2 * pi * real n / 1023)) [0..<1024]"
    by (simp add: hanning_def)
  then have h: "hanning 1024
      = 0 # map (\<lambda>n. 1 / 2 - 1 / 2 * cos (2 * pi * real n / 1023)) [Suc 0..<1024]"
    unfolding u by simp
  have z: "map2 (*) (replicate n (0::real)) ys = replicate (min n (length ys)) 0" for n ys
  proof (induction n arbitrary: ys)
    case 0
    then show ?case by simp
  next
    case (Suc n)
    then show ?case by (cases ys) simp_all
  qed
  have "map2 (*) ([1] @ replicate 1023 0) (hanning 1024)
        = 0 # replicate 1023 (0::real)"
    unfolding h by (simp add: z)
  also have "\<dots> = replicate (Suc 1023) 0" by (simp only: replicate_Suc)
  finally show ?thesis by simp
qed

lemma rfft_zeros: "rfft (replicate n 0) = replicate (n div 2 + 1) 0"
proof -
  have "(\<Sum>m<n. complex_of_real (replicate n 0 ! m) * cis (- (2 * pi * real k * real m / real n))) = 0"
    for k by (rule sum.neutral) simp
  then show ?thesis by (simp add: rfft_def map_replicate_const)
qed

lemma spec_mag_unit_impulse: "spec_mag [1] = [replicate 513 0]"
proof -
  have s: "stft_frames [1::real] = [[1] @ replicate 1023 0]"
    using stft_frames_short[of "[1::real]"] by (simp add: n_fft_def pad_right_def)
  have "spec_mag [1] = [map cmod (rfft (map2 (*) ([1] @ replicate 1023 0) (hanning 1024)))]"
    unfolding spec_mag_def s by (simp only: n_fft_def list.map)
  also have "\<dots> = [map cmod (rfft (replicate 1024 0))]"
    by (simp only: windowed_unit_impulse)
  also have "\<dots> = [replicate 513 0]"
    by (simp add: rfft_zeros)
  finally show ?thesis .
qed

text \<open>
  Claim C4 as stated fails for the non-silent signal of the single sample 1.0: the first
  coefficient of the Hann window is \<open>0.5 - 0.5 cos 0 = 0\<close>, the windowed frame is all zero,
  and the three ratios are \<open>0 / 1e-12 = 0\<close>.
\<close>

theorem band_ratios_unit_impulse:
  "ratio_sum (analyze_spectrum_for_comment [1] 16000) = 0"
proof -
  have c: "cap_seconds [1::real] 16000 = [1]" by (simp add: cap_seconds_def max_seconds_def)
  have "total_mag (spec_mag [1]) = 0"
    unfolding spec_mag_unit_impulse by (simp add: total_mag_def sum_list_replicate)
  with ratio_sum_eq[of "[1]" 16000] c show ?thesis by simp
qed

text \<open>The amended claim C4 at a signal of two samples.\<close>

theorem band_ratios_sum_witness:
  "ratio_sum (analyze_spectrum_for_comment [1, 0] 8000) < 1"
  using band_ratios_sum[of "[1, 0]" 8000] by simp

subsection \<open>Signal preprocessor\<close>

lemma flt_NaN_right [simp]: "flt a NaN = False"
  by (cases a) simp_all

text \<open>
  Claim C2 at the buffer of one NaN sample, whatever the two thresholds: the analysis path
  does not replace the NaN, and peak, rms and dbfs are NaN; the crest factor is the
  infinite sentinel although rms is not 0.
\<close>

theorem signal_metrics_nan_buffer:
  "compute_signal_metrics [NaN] clip_level silence_thresh
   = Inr \<lparr>peak = NaN, rms = NaN, dbfs = NaN, clip_ratio = Fin 0, silence_ratio = Fin 0,
      crest_factor = PInf\<rparr>"
  by (simp add: compute_signal_metrics_def range_autodetect_def abs_peak_def fgt_def
        np_mean_def py_max_def mean_bool_def Let_def)

text \<open>The buffer of one infinite sample gives the same metrics: \<open>inf / inf\<close> is NaN.\<close>

lemma inf_buffer_metrics:
  "compute_signal_metrics [PInf] clip_level silence_thresh
   = Inr \<lparr>peak = NaN, rms = NaN, dbfs = NaN, clip_ratio = Fin 0, silence_ratio = Fin 0,
      crest_factor = PInf\<rparr>"
  by (simp add: compute_signal_metrics_def range_autodetect_def abs_peak_def fgt_def
        np_mean_def py_max_def mean_bool_def Let_def signed_inf_def np_maximum_def)

text \<open>
  Claim C6 at the buffer of one NaN sample: both comparisons of the range detection are
  false, the buffer is left as it is and its absolute peak is NaN, which is not at most 1.
\<close>

theorem range_autodetect_nan_buffer:
  "bind_err (range_autodetect [NaN]) abs_peak = Inr NaN"
  by (simp add: range_autodetect_def abs_peak_def fgt_def Let_def)

lemma foldl_np_maximum_Fin:
  "foldl np_maximum (Fin a) (map Fin rs) = Fin (foldl max a rs)"
  by (induction rs arbitrary: a) (auto simp: np_maximum_def max_def)

lemma foldl_max_Max: "foldl max (a::real) rs = Max (set (a # rs))"
proof (induction rs arbitrary: a)
  case Nil
  then show ?case by simp
next
  case (Cons r rs)
  have "Max (insert a (insert r (set rs))) = max a (Max (insert r (set rs)))"
    by (rule Max_insert) auto
  also have "\<dots> = Max (insert (max a r) (set rs))"
    by (cases "set rs = {}") (auto simp: max.assoc)
  finally show ?case using Cons.IH[of "max a r"] by simp
qed

lemma abs_peak_Fin: "abs_peak (map Fin rs) = Inr (Fin (real_peak rs))"
proof (cases rs)
  case Nil
  then show ?thesis by (simp add: abs_peak_def real_peak_def)
next
  case (Cons r rs')
  have m: "map fabs (map Fin xs) = map Fin (map abs xs)" for xs by simp
  have "amax (map fabs (map Fin rs)) = Inr (foldl np_maximum (Fin \<bar>r\<bar>) (map fabs (map Fin rs')))"
    using Cons by simp
  then have "amax (map fabs (map Fin rs)) = Inr (Fin (foldl max \<bar>r\<bar> (map abs rs')))"
    by (simp only: m foldl_np_maximum_Fin)
  then show ?thesis using Cons
    by (simp add: abs_peak_def real_peak_def foldl_max_Max)
qed

lemma real_peak_nonneg: "0 \<le> real_peak rs"
proof (cases rs)
  case Nil
  then show ?thesis by (simp add: real_peak_def)
next
  case (Cons r rs')
  have "\<bar>r\<bar> \<le> Max ((\<lambda>r. \<bar>r\<bar>) ` set rs)" using Cons by (intro Max_ge) auto
  moreover have "0 \<le> \<bar>r\<bar>" by simp
  ultimately have "0 \<le> Max ((\<lambda>r. \<bar>r\<bar>) ` set rs)" by (rule order_trans[rotated])
  then show ?thesis using Cons by (simp only: real_peak_def list.distinct if_False)
qed

lemma real_peak_scale:
  assumes "0 < c"
  shows "real_peak (map (\<lambda>r. r / c) rs) = real_peak rs / c"
proof (cases rs)
  case Nil
  then show ?thesis by (simp add: real_peak_def)
next
  case (Cons r rs')
  let ?A = "(\<lambda>r. \<bar>r\<bar>) ` set rs"
  have ne: "?A \<noteq> {}" and fin: "finite ?A" using Cons by auto
  have "(\<lambda>r. \<bar>r\<bar>) ` set (map (\<lambda>r. r / c) rs) = (\<lambda>a. a / c) ` ?A"
    using assms by (auto simp: image_image abs_divide)
  moreover have "Max ((\<lambda>a. a / c) ` ?A) = Max ?A / c"
    using assms ne fin by (intro mono_Max_commute[symmetric]) (auto simp: mono_def divide_right_mono)
  ultimately show ?thesis using Cons by (simp add: real_peak_def)
qed

lemma fdiv_Fin_map:
  "c \<noteq> 0 \<Longrightarrow> map (\<lambda>v. fdiv v (Fin c)) (map Fin rs) = map Fin (map (\<lambda>r. r / c) rs)"
  by simp

lemma amax_abs_Fin:
  "rs \<noteq> [] \<Longrightarrow> amax (map fabs (map Fin rs)) = Inr (Fin (real_peak rs))"
  using abs_peak_Fin[of rs] by (simp add: abs_peak_def)

lemma real_peak_pos_nonempty: "0 < real_peak rs \<Longrightarrow> rs \<noteq> []"
  by (auto simp: real_peak_def)

lemma range_autodetect_Fin:
  "range_autodetect (map Fin rs) = Inr (map Fin (real_range rs))"
proof (cases "real_peak rs > 15 / 10")
  case True
  then have ne: "rs \<noteq> []" using real_peak_pos_nonempty[of rs] by simp
  let ?rs1 = "map (\<lambda>r. r / 32768) rs"
  have x1: "map (\<lambda>v. fdiv v (Fin 32768)) (map Fin rs) = map Fin ?rs1"
    by (rule fdiv_Fin_map) simp
  have p1: "amax (map fabs (map Fin ?rs1)) = Inr (Fin (real_peak ?rs1))"
    using ne by (intro amax_abs_Fin) simp
  show ?thesis
  proof (cases "real_peak ?rs1 > 1")
    case T2: True
    then have nz: "real_peak ?rs1 \<noteq> 0" by simp
    have "map (\<lambda>v. fdiv v (Fin (real_peak ?rs1))) (map Fin ?rs1)
          = map Fin (map (\<lambda>r. r / real_peak ?rs1) ?rs1)"
      by (rule fdiv_Fin_map[OF nz])
    then show ?thesis using True T2
      by (simp only: range_autodetect_def abs_peak_Fin bind_err_Inr fgt_def flt.simps
            if_True Let_def x1 p1 prod.case real_range_def)
  next
    case F2: False
    then show ?thesis using True
      by (simp only: range_autodetect_def abs_peak_Fin bind_err_Inr fgt_def flt.simps
            if_True if_False Let_def x1 p1 prod.case real_range_def)
  qed
next
  case False
  show ?thesis
  proof (cases "real_peak rs > 1")
    case T2: True
    then have nz: "real_peak rs \<noteq> 0" by simp
    have "map (\<lambda>v. fdiv v (Fin (real_peak rs))) (map Fin rs)
          = map Fin (map (\<lambda>r. r / real_peak rs) rs)"
      by (rule fdiv_Fin_map[OF nz])
    then show ?thesis using False T2
      by (simp only: range_autodetect_def abs_peak_Fin bind_err_Inr fgt_def flt.simps
            if_True if_False Let_def prod.case real_range_def)
  next
    case F2: False
    then show ?thesis using False
      by (simp only: range_autodetect_def abs_peak_Fin bind_err_Inr fgt_def flt.simps
            if_True if_False Let_def prod.case real_range_def)
  qed
qed

lemma real_peak_self_scale:
  assumes "1 < real_peak rs"
  shows "real_peak (map (\<lambda>r. r / real_peak rs) rs) = 1"
proof -
  from assms have "0 < real_peak rs" by simp
  from real_peak_scale[OF this, of rs] assms show ?thesis by simp
qed

lemma real_peak_range_le_1: "real_peak (real_range rs) \<le> 1"
proof (cases "real_peak rs > 15 / 10")
  case True
  let ?rs1 = "map (\<lambda>r. r / 32768) rs"
  show ?thesis
  proof (cases "real_peak ?rs1 > 1")
    case T2: True
    have "real_range rs = map (\<lambda>r. r / real_peak ?rs1) ?rs1"
      using True T2 by (simp only: real_range_def Let_def if_True)
    then show ?thesis using real_peak_self_scale[OF T2] by simp
  next
    case F2: False
    have "real_range rs = ?rs1"
      using True F2 by (simp only: real_range_def Let_def if_True if_False)
    then show ?thesis using F2 by simp
  qed
next
  case False
  show ?thesis
  proof (cases "real_peak rs > 1")
    case T2: True
    have "real_range rs = map (\<lambda>r. r / real_peak rs) rs"
      using False T2 by (simp only: real_range_def Let_def if_True if_False)
    then show ?thesis using real_peak_self_scale[OF T2] by simp
  next
    case F2: False
    have "real_range rs = rs"
      using False F2 by (simp only: real_range_def Let_def if_True if_False)
    then show ?thesis using F2 by simp
  qed
qed

text \<open>
  For a buffer of finite samples the range detection does what claim C6 says: the
  resulting absolute peak is between 0 and 1.
\<close>

lemma finite_buffer_peak_le_1:
  "\<exists>p. bind_err (range_autodetect (map Fin rs)) abs_peak = Inr (Fin p) \<and> 0 \<le> p \<and> p \<le> 1"
  using real_peak_range_le_1[of rs] real_peak_nonneg[of "real_range rs"]
  by (simp add: range_autodetect_Fin abs_peak_Fin)

lemma foldl_fadd_Fin: "foldl fadd (Fin a) (map Fin rs) = Fin (foldl (+) a rs)"
  by (induction rs arbitrary: a) simp_all

lemma np_mean_squares_Fin:
  assumes "rs \<noteq> []"
  shows "np_mean (map (\<lambda>v. fmul v v) (map Fin rs))
         = Fin (foldl (+) 0 (map (\<lambda>r. r * r) rs) / real (length rs))"
proof -
  have m: "map (\<lambda>v. fmul v v) (map Fin rs) = map Fin (map (\<lambda>r. r * r) rs)" by simp
  have l: "real (length rs) \<noteq> 0" using assms by simp
  show ?thesis
    unfolding np_mean_def m foldl_fadd_Fin length_map using l by simp
qed

lemma foldl_add_nonneg:
  "0 \<le> (a::real) \<Longrightarrow> \<forall>r\<in>set rs. 0 \<le> r \<Longrightarrow> 0 \<le> foldl (+) a rs"
  by (induction rs arbitrary: a) simp_all

lemma real_rms_nonneg: "0 \<le> real_rms rs"
proof -
  have "0 \<le> foldl (+) 0 (map (\<lambda>r. r * r) rs)"
    by (rule foldl_add_nonneg) auto
  then show ?thesis by (simp add: real_rms_def)
qed

lemma metrics_Fin:
  "compute_signal_metrics (map Fin rs) clip_level silence_thresh =
     (let ys = real_range rs; r = real_rms ys in
      Inr \<lparr>peak = Fin (real_peak ys), rms = Fin r,
           dbfs = Fin (20 * log 10 (max r (1 / 10 ^ 12))),
           clip_ratio = (if ys \<noteq> []
                         then mean_bool (map (\<lambda>v. fgt (fabs v) clip_level) (map Fin ys)) else Fin 0),
           silence_ratio = (if ys \<noteq> []
                         then mean_bool (map (\<lambda>v. flt (fabs v) silence_thresh) (map Fin ys)) else Fin 1),
           crest_factor = (if 0 < r then Fin (real_peak ys / (r + 1 / 10 ^ 12)) else PInf)\<rparr>)"
proof -
  let ?ys = "real_range rs"
  have ne0: "(map Fin ?ys \<noteq> []) = (?ys \<noteq> [])" by simp
  have rms: "(if ?ys \<noteq> [] then fsqrt (np_mean (map (\<lambda>v. fmul v v) (map Fin ?ys))) else Fin 0)
             = Fin (real_rms ?ys)"
  proof (cases "?ys = []")
    case True
    then show ?thesis by (simp add: real_rms_def)
  next
    case False
    have "0 \<le> foldl (+) 0 (map (\<lambda>r. r * r) ?ys)"
      by (rule foldl_add_nonneg) auto
    then have "\<not> foldl (+) 0 (map (\<lambda>r. r * r) ?ys) / real (length ?ys) < 0"
      by (simp add: not_less)
    then have "fsqrt (Fin (foldl (+) 0 (map (\<lambda>r. r * r) ?ys) / real (length ?ys)))
               = Fin (real_rms ?ys)"
      using False by (simp add: real_rms_def)
    then show ?thesis using False
      by (simp only: np_mean_squares_Fin[OF False] not_False_eq_True if_True)
  qed
  have mx: "py_max (Fin (real_rms ?ys)) (Fin (1 / 10 ^ 12))
            = Fin (max (real_rms ?ys) (1 / 10 ^ 12))"
    by (simp add: py_max_def fgt_def max_def)
  have pos: "0 < max (real_rms ?ys) (1 / 10 ^ 12)" by (simp add: less_max_iff_disj)
  have lg: "flog10 (Fin (max (real_rms ?ys) (1 / 10 ^ 12)))
            = Fin (log 10 (max (real_rms ?ys) (1 / 10 ^ 12)))"
    using pos by (simp only: flog10.simps) (simp add: not_less[symmetric])
  have ne: "(map Fin ?ys \<noteq> []) = (?ys \<noteq> [])" by simp
  have cf: "(if fgt (Fin (real_rms ?ys)) (Fin 0)
             then fdiv (Fin (real_peak ?ys)) (fadd (Fin (real_rms ?ys)) (Fin (1 / 10 ^ 12))) else PInf)
            = (if 0 < real_rms ?ys then Fin (real_peak ?ys / (real_rms ?ys + 1 / 10 ^ 12)) else PInf)"
    using real_rms_nonneg[of ?ys] by (auto simp: fgt_def)
  show ?thesis
    by (simp only: compute_signal_metrics_def range_autodetect_Fin bind_err_Inr abs_peak_Fin
          Let_def ne rms mx lg cf fmul.simps)
qed

lemma mean_bool_finite: "is_finite (mean_bool bs)"
  by (simp add: mean_bool_def)

text \<open>
  For a buffer of finite samples (the empty buffer included) the metrics are as claim C2
  says: the computation returns, five metrics are finite, and the crest factor is finite
  or is the infinite sentinel with rms equal to 0.
\<close>

lemma finite_buffer_metrics_finite:
  "\<exists>m. compute_signal_metrics (map Fin rs) clip_level silence_thresh = Inr m \<and>
       is_finite (peak m) \<and> is_finite (rms m) \<and> is_finite (dbfs m) \<and>
       is_finite (clip_ratio m) \<and> is_finite (silence_ratio m) \<and>
       (is_finite (crest_factor m) \<or> crest_factor m = PInf \<and> rms m = Fin 0)"
proof -
  have "real_rms (real_range rs) = 0" if "\<not> 0 < real_rms (real_range rs)"
    using that real_rms_nonneg[of "real_range rs"] by simp
  then show ?thesis
    unfolding metrics_Fin Let_def by (auto simp: mean_bool_finite)
qed

lemma real_peak_replicate_0: "real_peak (replicate n 0) = 0"
  by (cases "n = 0") (simp_all add: real_peak_def)

lemma real_range_replicate_0: "real_range (replicate n 0) = replicate n 0"
  by (simp add: real_range_def real_peak_replicate_0)

lemma foldl_add_replicate_0: "foldl (+) (0::real) (replicate n 0) = 0"
  by (induction n) simp_all

lemma real_rms_replicate_0: "real_rms (replicate n 0) = 0"
  by (simp add: real_rms_def foldl_add_replicate_0)

text \<open>
  The scenario of claim C2: an all-zero buffer, a clip level that is not negative and a
  positive silence threshold.
\<close>

lemma zero_buffer_metrics:
  assumes "0 < n" and "0 \<le> c" and "0 < s"
  shows "compute_signal_metrics (replicate n (Fin 0)) (Fin c) (Fin s)
         = Inr \<lparr>peak = Fin 0, rms = Fin 0, dbfs = Fin (20 * log 10 (1 / 10 ^ 12)),
                clip_ratio = Fin 0, silence_ratio = Fin 1, crest_factor = PInf\<rparr>"
proof -
  have r: "replicate n (Fin 0) = map Fin (replicate n 0)" by simp
  have f: "filter id (replicate n b) = (if b then replicate n True else [])" for b
    by (induction n) auto
  show ?thesis
    unfolding r metrics_Fin Let_def real_range_replicate_0 real_rms_replicate_0
      real_peak_replicate_0
    using assms by (simp add: mean_bool_def fgt_def f)
qed

lemma empty_buffer_metrics:
  "compute_signal_metrics [] clip_level silence_thresh
   = Inr \<lparr>peak = Fin 0, rms = Fin 0, dbfs = Fin (20 * log 10 (1 / 10 ^ 12)),
          clip_ratio = Fin 0, silence_ratio = Fin 1, crest_factor = PInf\<rparr>"
  by (simp add: compute_signal_metrics_def range_autodetect_def abs_peak_def fgt_def
        py_max_def Let_def)

lemma rnd_id_fun: "rnd (\<lambda>r. r) = (\<lambda>v. v)"
proof
  fix v show "rnd (\<lambda>r. r) v = v" by (cases v) simp_all
qed

lemma normalize_exact_body:
  "normalize_exact x target_peak =
     (if x = [] then Inr [Fin 0]
      else
        let xp = map nan_to_num x in
        bind_err (safe_peak xp) (\<lambda>peak.
          if flt peak (Fin (1 / 10 ^ 6)) then Inr xp
          else
            let xp1 = (if fgt peak (Fin 1) then map (\<lambda>v. fdiv v peak) xp else xp);
                peak1 = (if fgt peak (Fin 1) then Fin 1 else peak);
                scale = fdiv (Fin target_peak) (py_max peak1 (Fin (1 / 10 ^ 6)))
            in Inr (map (\<lambda>v. np_clip (fmul v scale) (Fin (- 1)) (Fin 1)) xp1)))"
  by (simp only: normalize_exact_def normalize_for_saving_def rnd_id_fun list.map_ident)

lemma nan_to_num_to_real: "map nan_to_num x = map Fin (map to_real x)"
proof -
  have "nan_to_num v = Fin (to_real v)" for v by (cases v) simp_all
  then show ?thesis by simp
qed

lemma nan_to_num_Fin: "map nan_to_num (map Fin rs) = map Fin rs"
  by simp

lemma safe_peak_Fin: "safe_peak (map Fin rs) = Inr (Fin (real_peak rs))"
proof (cases "rs = []")
  case True
  then show ?thesis by (simp add: safe_peak_def real_peak_def)
next
  case False
  then show ?thesis
    by (simp only: safe_peak_def nan_to_num_Fin amax_abs_Fin[OF False] map_is_Nil_conv if_False)
qed

lemma np_clip_Fin: "np_clip (Fin a) (Fin (- 1)) (Fin 1) = Fin (min (max a (- 1)) 1)"
  by (simp add: np_clip_def np_minimum_def np_maximum_def min_def max_def)

lemma normalize_unfold:
  assumes "rs \<noteq> []"
  shows "normalize_exact (map Fin rs) t =
          (if real_peak rs < 1 / 10 ^ 6 then Inr (map Fin rs)
           else Inr (map (\<lambda>v. np_clip
                      (fmul v (fdiv (Fin t)
                         (py_max (if 1 < real_peak rs then Fin 1 else Fin (real_peak rs))
                            (Fin (1 / 10 ^ 6)))))
                      (Fin (- 1)) (Fin 1))
                  (if 1 < real_peak rs
                   then map (\<lambda>v. fdiv v (Fin (real_peak rs))) (map Fin rs) else map Fin rs)))"
  using assms
  by (simp only: normalize_exact_body Let_def nan_to_num_Fin safe_peak_Fin bind_err_Inr
        map_is_Nil_conv if_False flt.simps fgt_def)

lemma normalize_Fin:
  assumes "rs \<noteq> []"
  shows "normalize_exact (map Fin rs) t = Inr (map Fin (real_normalize rs t))"
proof -
  let ?p = "real_peak rs"
  show ?thesis
  proof (cases "?p < 1 / 10 ^ 6")
    case True
    then show ?thesis
      by (simp only: normalize_unfold[OF assms] real_normalize_def Let_def if_True)
  next
    case small: False
    then have p6: "1 / 10 ^ 6 \<le> ?p" by simp
    show ?thesis
    proof (cases "?p > 1")
      case True
      then have pz: "?p \<noteq> 0" by simp
      have mx: "py_max (Fin 1) (Fin (1 / 10 ^ 6)) = Fin 1" by (simp add: py_max_def fgt_def)
      have dv: "map (\<lambda>v. fdiv v (Fin ?p)) (map Fin rs) = map Fin (map (\<lambda>r. r / ?p) rs)"
        by (rule fdiv_Fin_map[OF pz])
      have "normalize_exact (map Fin rs) t
            = Inr (map (\<lambda>v. np_clip (fmul v (fdiv (Fin t) (Fin 1))) (Fin (- 1)) (Fin 1))
                    (map Fin (map (\<lambda>r. r / ?p) rs)))"
        using small True by (simp only: normalize_unfold[OF assms] if_True if_False mx dv)
      also have "\<dots> = Inr (map Fin (map (\<lambda>r. min (max (r / ?p * t) (- 1)) 1) rs))"
        by (simp add: np_clip_Fin)
      also have "\<dots> = Inr (map Fin (real_normalize rs t))"
        using small True by (simp add: real_normalize_def Let_def)
      finally show ?thesis .
    next
      case False
      have pos: "0 < ?p" using p6 by (rule less_le_trans[rotated]) simp
      have mx: "py_max (Fin ?p) (Fin (1 / 10 ^ 6)) = Fin ?p"
        using small by (simp add: py_max_def fgt_def)
      have "normalize_exact (map Fin rs) t
            = Inr (map (\<lambda>v. np_clip (fmul v (fdiv (Fin t) (Fin ?p))) (Fin (- 1)) (Fin 1))
                    (map Fin rs))"
        using small False by (simp only: normalize_unfold[OF assms] if_True if_False mx)
      also have "\<dots> = Inr (map Fin (map (\<lambda>r. min (max (r * (t / ?p)) (- 1)) 1) rs))"
        using pos by (simp add: np_clip_Fin)
      also have "\<dots> = Inr (map Fin (real_normalize rs t))"
        using small False p6 by (simp add: real_normalize_def Let_def max_absorb1)
      finally show ?thesis .
    qed
  qed
qed

lemma real_peak_bound: "r \<in> set rs \<Longrightarrow> \<bar>r\<bar> \<le> real_peak rs"
proof -
  assume r: "r \<in> set rs"
  then have "rs \<noteq> []" by auto
  moreover have "\<bar>r\<bar> \<le> Max ((\<lambda>r. \<bar>r\<bar>) ` set rs)" using r by (intro Max_ge) auto
  ultimately show ?thesis by (simp add: real_peak_def)
qed

lemma real_peak_mult:
  assumes "0 \<le> c"
  shows "real_peak (map (\<lambda>r. r * c) rs) = real_peak rs * c"
proof (cases "c = 0")
  case True
  have "real_peak (map (\<lambda>r. 0) rs) = 0"
    by (cases "rs = []") (auto simp: real_peak_def image_constant_conv)
  then show ?thesis using True by simp
next
  case False
  with assms have "0 < 1 / c" by simp
  from real_peak_scale[OF this, of rs] show ?thesis by simp
qed

lemma clip_noop: "\<bar>v\<bar> \<le> 1 \<Longrightarrow> min (max v (- 1)) 1 = (v::real)"
  by (simp add: min_def max_def abs_le_iff)

lemma real_normalize_eq:
  assumes p6: "1 / 10 ^ 6 \<le> real_peak rs" and t: "0 \<le> t" "t \<le> 1"
  shows "real_normalize rs t = map (\<lambda>r. r * (t / real_peak rs)) rs"
proof -
  let ?p = "real_peak rs"
  have pos: "0 < ?p" using p6 by (rule less_le_trans[rotated]) simp
  have small: "\<not> ?p < 1 / 10 ^ 6" using p6 by simp
  have bound: "\<bar>r * (t / ?p)\<bar> \<le> 1" if "r \<in> set rs" for r
  proof -
    from real_peak_bound[OF that] pos have a: "\<bar>r\<bar> / ?p \<le> 1" by simp
    have e: "\<bar>r * (t / ?p)\<bar> = (\<bar>r\<bar> / ?p) * t" using t pos by (simp add: abs_mult)
    have n: "0 \<le> \<bar>r\<bar> / ?p" using pos by simp
    have "(\<bar>r\<bar> / ?p) * t \<le> 1" using a n t by (intro mult_le_one) auto
    then show ?thesis by (simp only: e)
  qed
  show ?thesis
  proof (cases "?p > 1")
    case True
    have "real_normalize rs t = map (\<lambda>r. min (max (r * t) (- 1)) 1) (map (\<lambda>r. r / ?p) rs)"
      using small True by (simp add: real_normalize_def Let_def del: map_map)
    also have "\<dots> = map (\<lambda>r. min (max (r * (t / ?p)) (- 1)) 1) rs" by simp
    also have "\<dots> = map (\<lambda>r. r * (t / ?p)) rs"
      by (rule map_cong[OF refl]) (rule clip_noop, rule bound)
    finally show ?thesis .
  next
    case False
    have "real_normalize rs t = map (\<lambda>r. min (max (r * (t / ?p)) (- 1)) 1) rs"
      using small False p6 by (simp add: real_normalize_def Let_def max_absorb1)
    also have "\<dots> = map (\<lambda>r. r * (t / ?p)) rs"
      by (rule map_cong[OF refl]) (rule clip_noop, rule bound)
    finally show ?thesis .
  qed
qed

lemma real_normalize_idem:
  assumes t: "0 \<le> t" "t \<le> 1"
  shows "real_normalize (real_normalize rs t) t = real_normalize rs t"
proof (cases "real_peak rs < 1 / 10 ^ 6")
  case True
  then have "real_normalize rs t = rs" by (simp add: real_normalize_def)
  then show ?thesis by simp
next
  case False
  then have p6: "1 / 10 ^ 6 \<le> real_peak rs" by simp
  then have pos: "0 < real_peak rs" by (rule less_le_trans[rotated]) simp
  let ?ys = "real_normalize rs t"
  have ys: "?ys = map (\<lambda>r. r * (t / real_peak rs)) rs" by (rule real_normalize_eq[OF p6 t])
  have "0 \<le> t / real_peak rs" using t pos by simp
  from real_peak_mult[OF this, of rs] ys pos have pk: "real_peak ?ys = t" by simp
  show ?thesis
  proof (cases "t < 1 / 10 ^ 6")
    case True
    with pk show ?thesis by (simp add: real_normalize_def[of ?ys])
  next
    case False
    then have "1 / 10 ^ 6 \<le> real_peak ?ys" using pk by simp
    from real_normalize_eq[OF this t] have "real_normalize ?ys t = map (\<lambda>r. r * (t / t)) ?ys"
      by (simp only: pk)
    moreover have "t \<noteq> 0" using False by auto
    ultimately show ?thesis by simp
  qed
qed

lemma real_normalize_nonempty: "rs \<noteq> [] \<Longrightarrow> real_normalize rs t \<noteq> []"
  by (simp add: real_normalize_def Let_def)

text \<open>
  Claim C5, amended. In exact arithmetic, and for a target peak between 0 and 1,
  normalizing twice gives what normalizing once gives, for every input array: after the
  first pass the peak is the target (or the array is silent and is passed through), and
  the second pass scales by \<open>target / target = 1\<close>.
\<close>

theorem normalize_exact_idempotent:
  assumes "0 \<le> t" and "t \<le> 1"
  shows "bind_err (normalize_exact x t) (\<lambda>y. normalize_exact y t)
         = normalize_exact x t"
proof (cases "x = []")
  case True
  have "normalize_exact [Fin 0] t = Inr [Fin 0]"
    by (simp add: normalize_exact_body safe_peak_def Let_def)
  then show ?thesis using True by (simp add: normalize_exact_body)
next
  case False
  let ?rs = "map to_real x"
  have ne: "?rs \<noteq> []" using False by simp
  have nn: "map nan_to_num (map Fin ?rs) = map nan_to_num x"
    by (simp add: nan_to_num_to_real)
  have "normalize_exact x t = normalize_exact (map Fin ?rs) t"
    using False by (simp only: normalize_exact_body nn map_is_Nil_conv)
  then have first: "normalize_exact x t = Inr (map Fin (real_normalize ?rs t))"
    by (simp only: normalize_Fin[OF ne])
  have "normalize_exact (map Fin (real_normalize ?rs t)) t
        = Inr (map Fin (real_normalize (real_normalize ?rs t) t))"
    by (rule normalize_Fin[OF real_normalize_nonempty[OF ne]])
  then show ?thesis
    by (simp only: first bind_err_Inr real_normalize_idem[OF assms])
qed

text \<open>The amended claim C5 at an array with a NaN sample and the target 0.98.\<close>

theorem normalize_exact_idempotent_witness:
  "bind_err (normalize_exact [Fin (1 / 2), NaN, Fin (- 1 / 4)] (98 / 100))
     (\<lambda>y. normalize_exact y (98 / 100))
   = normalize_exact [Fin (1 / 2), NaN, Fin (- 1 / 4)] (98 / 100)"
  using normalize_exact_idempotent[of "98 / 100" "[Fin (1 / 2), NaN, Fin (- 1 / 4)]"]
  by simp

text \<open>
  Rounding at concrete values: a number between \<open>2^k\<close> and \<open>2^(k+1)\<close> is rounded on the
  grid of step \<open>2^(k - prec + 1)\<close>.
\<close>

lemma pow2_powr: "pow2 e = 2 powr of_int e"
proof (cases "0 \<le> e")
  case True
  then show ?thesis by (simp add: pow2_def powr_realpow[symmetric])
next
  case False
  have "(2::real) powr of_int e = 2 powr (- real_of_int (- e))" by simp
  also have "\<dots> = 1 / 2 powr real_of_int (- e)" by (rule powr_minus_divide)
  also have "real_of_int (- e) = real (nat (- e))" using False by simp
  also have "(2::real) powr real (nat (- e)) = 2 ^ nat (- e)" by (simp add: powr_realpow)
  finally show ?thesis using False by (simp add: pow2_def)
qed

lemma floor_log2_eq:
  assumes "pow2 k \<le> x" and "x < pow2 (k + 1)"
  shows "\<lfloor>log 2 x\<rfloor> = k"
proof -
  have pos: "0 < x" using assms(1) by (smt (verit) pow2_powr powr_gt_zero)
  have "of_int k \<le> log 2 x"
    using assms(1) pos by (simp add: pow2_powr le_log_iff)
  moreover have "log 2 x < of_int (k + 1)"
    using assms(2) pos by (simp add: pow2_powr log_less_iff)
  ultimately show ?thesis by (simp add: floor_eq_iff)
qed

lemma fl_eval:
  assumes "pow2 k \<le> \<bar>x\<bar>" and "\<bar>x\<bar> < pow2 (k + 1)"
  shows "fl prec x = of_int (rne (x / pow2 (k - int prec + 1))) * pow2 (k - int prec + 1)"
proof -
  have "0 < pow2 k" by (simp add: pow2_powr)
  with assms(1) have "x \<noteq> 0" by auto
  then show ?thesis
    by (simp add: fl_def floor_log2_eq[OF assms] Let_def)
qed

text \<open>
  The roundings of two passes over the array of the single sample \<open>463/512 = 0.904296875\<close>:
  the scale \<open>0.98 / x\<close> as a double and as a 32-bit float, the product, and the same again
  on the result.
\<close>

lemma r0: "fl 24 (463 / 512) = 463 / 512"
  by (subst fl_eval[of "-1"]) (simp_all add: pow2_def rne_def)

lemma r1: "fl 53 (double_098 / (463 / 512)) = 2440309016230475 / 2251799813685248"
  unfolding double_098_def
  by (subst fl_eval[of 0]) (simp_all add: pow2_def rne_def)

lemma r2: "fl 24 (2440309016230475 / 2251799813685248) = 2272715 / 2097152"
  by (subst fl_eval[of 0]) (simp_all add: pow2_def rne_def)

lemma r3: "fl 24 (463 / 512 * (2272715 / 2097152)) = 16441673 / 16777216"
  by (subst fl_eval[of "-1"]) (simp_all add: pow2_def rne_def)

lemma r4: "fl 24 (16441673 / 16777216) = 16441673 / 16777216"
  by (subst fl_eval[of "-1"]) (simp_all add: pow2_def rne_def)

lemma r5: "fl 53 (double_098 / (16441673 / 16777216)) = 9007198531608801 / 9007199254740992"
  unfolding double_098_def
  by (subst fl_eval[of "-1"]) (simp_all add: pow2_def rne_def)

lemma r6: "fl 24 (9007198531608801 / 9007199254740992) = 16777215 / 16777216"
  by (subst fl_eval[of "-1"]) (simp_all add: pow2_def rne_def)

lemma r7: "fl 24 (16441673 / 16777216 * (16777215 / 16777216)) = 2055209 / 2097152"
  by (subst fl_eval[of "-1"]) (simp_all add: pow2_def rne_def)

lemma normalize_single:
  assumes "r32 x = x" and "1 / 10 ^ 6 \<le> x" and "x \<le> 1"
    and "r64 (t / x) = s64" and "r32 s64 = s32" and "r32 (x * s32) = y"
    and "- 1 \<le> y" and "y \<le> 1"
  shows "normalize_for_saving r32 r64 [Fin x] t = Inr [Fin y]"
proof -
  have pos: "0 < x" using assms(2) by (rule less_le_trans[rotated]) simp
  then have ax: "\<bar>x\<bar> = x" by simp
  have nz: "x \<noteq> 0" using pos by simp
  have mx: "py_max (Fin x) (Fin (1 / 10 ^ 6)) = Fin x"
    using assms(2) by (simp add: py_max_def fgt_def)
  have cl: "np_clip (Fin y) (Fin (- 1)) (Fin 1) = Fin y"
    using assms(7,8) by (simp add: np_clip_def np_maximum_def np_minimum_def)
  have sc: "rnd r32 (rnd r64 (fdiv (Fin t) (Fin x))) = Fin s32"
    using nz assms(4,5) by simp
  have pk: "safe_peak [Fin x] = Inr (Fin x)" by (simp add: safe_peak_def ax)
  have small: "\<not> flt (Fin x) (Fin (1 / 10 ^ 6))" using assms(2) by simp
  have big: "\<not> fgt (Fin x) (Fin 1)" using assms(3) by (simp add: fgt_def)
  have "normalize_for_saving r32 r64 [Fin x] t
        = Inr [np_clip (rnd r32 (fmul (Fin x) (rnd r32 (rnd r64 (fdiv (Fin t) (Fin x))))))
                 (Fin (- 1)) (Fin 1)]"
    using small big
    by (simp only: normalize_for_saving_def list.map rnd.simps nan_to_num.simps assms(1) pk bind_err_Inr
          Let_def if_False mx list.distinct)
  also have "\<dots> = Inr [Fin y]"
    by (simp only: sc fmul.simps rnd.simps assms(6) cl)
  finally show ?thesis .
qed

lemma first_pass:
  "normalize_for_saving (fl 24) (fl 53) [Fin (463 / 512)] double_098 = Inr [Fin (16441673 / 16777216)]"
  by (rule normalize_single[of "fl 24" "463 / 512" "fl 53" double_098
        "2440309016230475 / 2251799813685248" "2272715 / 2097152" "16441673 / 16777216"],
      rule r0, simp, simp, rule r1, rule r2, rule r3, simp, simp)

lemma second_pass:
  "normalize_for_saving (fl 24) (fl 53) [Fin (16441673 / 16777216)] double_098
   = Inr [Fin (2055209 / 2097152)]"
  by (rule normalize_single[of "fl 24" "16441673 / 16777216" "fl 53" double_098
        "9007198531608801 / 9007199254740992" "16777215 / 16777216" "2055209 / 2097152"],
      rule r4, simp, simp, rule r5, rule r6, rule r7, simp, simp)

text \<open>
  Claim C5 as stated fails in the arithmetic of the source. The first pass takes the
  array \<open>[0.904296875]\<close> to \<open>16441673 / 2^24\<close> (about 0.98000008), one step above the
  32-bit float nearest to 0.98; the second pass scales by the 32-bit float
  \<open>1 - 2^-24\<close> and gives \<open>2055209 / 2^21\<close> (about 0.98000002).
\<close>

theorem normalize_float32_not_idempotent:
  "bind_err (normalize_for_saving (fl 24) (fl 53) [Fin (463 / 512)] double_098)
     (\<lambda>y. normalize_for_saving (fl 24) (fl 53) y double_098)
   \<noteq> normalize_for_saving (fl 24) (fl 53) [Fin (463 / 512)] double_098"
  by (simp add: first_pass second_pass)

subsection \<open>Rule engine\<close>










lemma render_rules_acc:
  assumes ch: "\<forall>g xs. xs \<noteq> [] \<longrightarrow> fst (choice g xs) \<in> set xs"
  shows "\<exists>new. fst (render_rules fires choice rs (acc, g)) = acc @ new \<and>
               list_all2 line_of_rule (filter (rule_fires fires) rs) new"
proof (induction rs arbitrary: acc g)
  case Nil
  then show ?case by simp
next
  case (Cons rule rest)
  show ?case
  proof (cases "rule_fires fires rule")
    case False
    then have "render_rules fires choice (rule # rest) (acc, g)
               = render_rules fires choice rest (acc, g)"
      by (auto simp: rule_fires_def Let_def)
    with Cons.IH[of acc g] False show ?thesis by simp
  next
    case True
    then have c: "rule_cond rule \<noteq> []" and t: "text_truthy (rule_text_or_empty rule)"
      and f: "fires (rule_cond rule)" by (simp_all add: rule_fires_def)
    show ?thesis
    proof (cases "rule_text_or_empty rule")
      case (TStr s)
      then have "render_rules fires choice (rule # rest) (acc, g)
                 = render_rules fires choice rest (acc @ [''- '' @ s], g)"
        using c t f by (simp add: Let_def)
      moreover from Cons.IH[of "acc @ [''- '' @ s]" g] obtain new
        where "fst (render_rules fires choice rest (acc @ [''- '' @ s], g))
                 = (acc @ [''- '' @ s]) @ new"
          and "list_all2 line_of_rule (filter (rule_fires fires) rest) new" by blast
      moreover have "line_of_rule rule (''- '' @ s)" using TStr by (simp add: line_of_rule_def)
      ultimately have "fst (render_rules fires choice (rule # rest) (acc, g))
                         = acc @ ((''- '' @ s) # new) \<and>
                       list_all2 line_of_rule (filter (rule_fires fires) (rule # rest))
                         ((''- '' @ s) # new)"
        using True by simp
      then show ?thesis by blast
    next
      case (TList xs)
      obtain sel g' where sel: "choice g xs = (sel, g')" by (cases "choice g xs")
      from t TList have "xs \<noteq> []" by simp
      with ch sel have mem: "sel \<in> set xs" by (metis fst_conv)
      have "render_rules fires choice (rule # rest) (acc, g)
                 = render_rules fires choice rest (acc @ [''- '' @ sel], g')"
        using c t f TList sel by (simp add: Let_def)
      moreover from Cons.IH[of "acc @ [''- '' @ sel]" g'] obtain new
        where "fst (render_rules fires choice rest (acc @ [''- '' @ sel], g'))
                 = (acc @ [''- '' @ sel]) @ new"
          and "list_all2 line_of_rule (filter (rule_fires fires) rest) new" by blast
      moreover have "line_of_rule rule (''- '' @ sel)"
        using TList mem by (auto simp: line_of_rule_def list_ex_iff)
      ultimately have "fst (render_rules fires choice (rule # rest) (acc, g))
                         = acc @ ((''- '' @ sel) # new) \<and>
                       list_all2 line_of_rule (filter (rule_fires fires) (rule # rest))
                         ((''- '' @ sel) # new)"
        using True by simp
      then show ?thesis by blast
    qed
  qed
qed

lemma render_rules_lines:
  assumes "\<forall>g xs. xs \<noteq> [] \<longrightarrow> fst (choice g xs) \<in> set xs"
  shows "list_all2 line_of_rule (filter (rule_fires fires) rs)
           (fst (render_rules fires choice rs ([], g)))"
  using render_rules_acc[OF assms, of fires rs "[]" g] by auto

lemma render_sections_acc:
  assumes ch: "\<forall>g xs. xs \<noteq> [] \<longrightarrow> fst (choice g xs) \<in> set xs"
  shows "\<exists>new. fst (render_sections fires choice secs (acc, g)) = acc @ new \<and>
               list_all2 (part_of_section fires) (filter (section_fires fires) secs) new"
proof (induction secs arbitrary: acc g)
  case Nil
  then show ?case by simp
next
  case (Cons sec rest)
  obtain lines g' where r: "render_rules fires choice (section_rules sec) ([], g) = (lines, g')"
    by (cases "render_rules fires choice (section_rules sec) ([], g)")
  from render_rules_lines[OF ch, of fires "section_rules sec" g] r
  have l2: "list_all2 line_of_rule (filter (rule_fires fires) (section_rules sec)) lines" by simp
  have ne: "lines \<noteq> [] \<longleftrightarrow> section_fires fires sec"
  proof -
    from l2 have "length (filter (rule_fires fires) (section_rules sec)) = length lines"
      by (rule list_all2_lengthD)
    then have "lines \<noteq> [] \<longleftrightarrow> filter (rule_fires fires) (section_rules sec) \<noteq> []"
      by (metis length_0_conv)
    then show ?thesis by (simp add: section_fires_def list_ex_iff filter_empty_conv)
  qed
  show ?case
  proof (cases "section_fires fires sec")
    case True
    with ne have lne: "lines \<noteq> []" by simp
    have step: "render_sections fires choice (sec # rest) (acc, g)
          = render_sections fires choice rest (acc @ [(section_heading sec, lines)], g')"
      using r lne by (simp add: Let_def)
    from Cons.IH[of "acc @ [(section_heading sec, lines)]" g'] obtain new
      where n: "fst (render_sections fires choice rest (acc @ [(section_heading sec, lines)], g'))
                 = (acc @ [(section_heading sec, lines)]) @ new"
        and a: "list_all2 (part_of_section fires) (filter (section_fires fires) rest) new"
      by blast
    have p: "part_of_section fires sec (section_heading sec, lines)"
      using l2 by (simp add: part_of_section_def)
    have "fst (render_sections fires choice (sec # rest) (acc, g))
            = acc @ ((section_heading sec, lines) # new) \<and>
          list_all2 (part_of_section fires) (filter (section_fires fires) (sec # rest))
            ((section_heading sec, lines) # new)"
      using step n a p True by simp
    then show ?thesis by blast
  next
    case False
    with ne have le: "lines = []" by simp
    have step: "render_sections fires choice (sec # rest) (acc, g)
          = render_sections fires choice rest (acc, g')"
      using r le by (simp add: Let_def)
    with Cons.IH[of acc g'] False show ?thesis by simp
  qed
qed

lemma fired_sections_parts:
  assumes "\<forall>g xs. xs \<noteq> [] \<longrightarrow> fst (choice g xs) \<in> set xs"
  shows "list_all2 (part_of_section (\<lambda>cond. safe_eval_expr parse arith unary cond env))
           (filter (section_fires (\<lambda>cond. safe_eval_expr parse arith unary cond env)) secs)
           (fired_sections parse arith unary choice (Some secs) env g)"
  using render_sections_acc[OF assms, of "\<lambda>cond. safe_eval_expr parse arith unary cond env" secs "[]" g]
  by (auto simp: fired_sections_def)

lemma render_is_formatted_sections:
  "fst (render_rule_based_feedback parse arith unary choice data env g)
   = concat (map format_part (fired_sections parse arith unary choice data env g))"
  by (cases data) (simp_all add: render_rule_based_feedback_def fired_sections_def
        split: prod.splits)

lemma strip_rms_rule: "strip ''rms > 0.05'' = ''rms > 0.05''"
  by (simp add: strip_def py_isspace_def)

lemma rms_rule_fires_iff:
  assumes "parse ''rms > 0.05'' = Inr rms_tree"
  shows "safe_eval_expr parse arith unary ''rms > 0.05'' [''rms'' \<mapsto> VFloat (Fin r)]
         \<longleftrightarrow> 5 / 100 < r"
  using assms
  by (simp add: safe_eval_expr_def safe_eval_tree_def rms_tree_def check_def allowed_def
        ALLOWED_NODES_def lookup_name_def py_lt_def)

lemma loud_scenario:
  assumes "parse ''rms > 0.05'' = Inr rms_tree"
  shows "render_sections
           (\<lambda>cond. safe_eval_expr parse arith unary cond [''rms'' \<mapsto> VFloat (Fin r)]) choice
           (the (loud_template h)) ([], g)
         = (if 5 / 100 < r then [(h, [''- loud enough''])] else [], g)"
  using rms_rule_fires_iff[of parse arith unary r] assms
  by (simp add: loud_template_def section_rules_def section_heading_def rule_cond_def
        rule_text_or_empty_def strip_rms_rule Let_def)

text \<open>
  Claim C8. Where the parser gives \<^verbatim>\<open>rms > 0.05\<close> its tree and the random choice returns
  an entry of its list: the template with one section and the one rule gives that section
  with the single line \<open>- loud enough\<close> for the environment \<open>rms = 0.1\<close>, and the empty
  result for \<open>rms = 0.01\<close>. For every template and environment the sections of the result
  are the sections in which a rule fires, in order, each with its heading and exactly one
  line for each firing rule (the rule's text, or an entry of its list); the result is the
  Markdown of these sections, and it is empty when there is no template.
\<close>

theorem render_rule_based_feedback_sections:
  assumes "parse ''rms > 0.05'' = Inr rms_tree"
    and "\<forall>g xs. xs \<noteq> [] \<longrightarrow> fst (choice g xs) \<in> set xs"
  shows "render_rule_based_feedback parse arith unary choice (loud_template h)
           [''rms'' \<mapsto> VFloat (Fin (1 / 10))] g
         = (NL @ ''---'' @ NL @ NL @ ''## '' @ h @ NL @ ''- loud enough'', g) \<and>
         fired_sections parse arith unary choice (loud_template h)
           [''rms'' \<mapsto> VFloat (Fin (1 / 10))] g = [(h, [''- loud enough''])] \<and>
         render_rule_based_feedback parse arith unary choice (loud_template h)
           [''rms'' \<mapsto> VFloat (Fin (1 / 100))] g = ([], g) \<and>
         fired_sections parse arith unary choice (loud_template h)
           [''rms'' \<mapsto> VFloat (Fin (1 / 100))] g = [] \<and>
         list_all2 (part_of_section (\<lambda>cond. safe_eval_expr parse arith unary cond env))
           (filter (section_fires (\<lambda>cond. safe_eval_expr parse arith unary cond env)) secs)
           (fired_sections parse arith unary choice (Some secs) env g) \<and>
         fst (render_rule_based_feedback parse arith unary choice data env g)
           = concat (map format_part (fired_sections parse arith unary choice data env g)) \<and>
         render_rule_based_feedback parse arith unary choice None env g = ([], g)"
proof -
  have t: "loud_template h = Some (the (loud_template h))" by (simp add: loud_template_def)
  have ls: "render_sections
           (\<lambda>cond. safe_eval_expr parse arith unary cond [''rms'' \<mapsto> VFloat (Fin r)]) choice
           (the (loud_template h)) ([], g)
         = (if 5 / 100 < r then [(h, [''- loud enough''])] else [], g)" for r
    using loud_scenario[of parse arith unary r choice h g] assms(1) by blast
  have a: "render_rule_based_feedback parse arith unary choice (loud_template h)
           [''rms'' \<mapsto> VFloat (Fin (1 / 10))] g
         = (NL @ ''---'' @ NL @ NL @ ''## '' @ h @ NL @ ''- loud enough'', g)"
    by (subst t) (simp add: render_rule_based_feedback_def ls
          format_part_def)
  have b: "fired_sections parse arith unary choice (loud_template h)
           [''rms'' \<mapsto> VFloat (Fin (1 / 10))] g = [(h, [''- loud enough''])]"
    by (subst t) (simp add: fired_sections_def ls)
  have c: "render_rule_based_feedback parse arith unary choice (loud_template h)
           [''rms'' \<mapsto> VFloat (Fin (1 / 100))] g = ([], g)"
    by (subst t) (simp add: render_rule_based_feedback_def ls)
  have d: "fired_sections parse arith unary choice (loud_template h)
           [''rms'' \<mapsto> VFloat (Fin (1 / 100))] g = []"
    by (subst t) (simp add: fired_sections_def ls)
  have e: "render_rule_based_feedback parse arith unary choice None env g = ([], g)"
    by (simp add: render_rule_based_feedback_def)
  from a b c d e fired_sections_parts[OF assms(2), of parse arith unary env secs g]
    render_is_formatted_sections[of parse arith unary choice data env g]
  show ?thesis by blast
qed

text \<open>Claim C8 with the parser of the one expression and the choice of the first entry.\<close>

theorem render_rule_based_feedback_sections_witness:
  "render_rule_based_feedback (parse_table [(''rms > 0.05'', rms_tree)]) no_arith no_unary
     first_choice (loud_template ''Volume'') [''rms'' \<mapsto> VFloat (Fin (1 / 10))] ()
   = (NL @ ''---'' @ NL @ NL @ ''## Volume'' @ NL @ ''- loud enough'', ()) \<and>
   render_rule_based_feedback (parse_table [(''rms > 0.05'', rms_tree)]) no_arith no_unary
     first_choice (loud_template ''Volume'') [''rms'' \<mapsto> VFloat (Fin (1 / 100))] ()
   = ([], ())"
  using render_rule_based_feedback_sections
    [of "parse_table [(''rms > 0.05'', rms_tree)]" first_choice no_arith no_unary "''Volume''" "()"]
  by (simp add: parse_table_def first_choice_def)

end
